(* ===== verification/Prelude.thy ===== *)
theory Prelude
  imports Main "HOL-Library.Word"
begin

text \<open>
  Shared material of the development: the Python exceptions the program raises or
  propagates, the few Python string builtins the sources call (\<open>str.lower\<close>,
  \<open>str.capitalize\<close>), the named theorem collections the component theories fill, and
  generic lemmas on lists and sums that the component proofs use.
  Python strings are modelled as \<open>string\<close> (lists of 8-bit \<open>char\<close> read as the
  Latin-1 code points); case conversion follows Python on the Latin-1 letters.
\<close>

section \<open>Collections\<close>

named_theorems node_defs "definitions of the LangGraph node functions and the router"
named_theorems run_simps "evaluation rules of the graph run used by the trace lemmas"

section \<open>Python exceptions\<close>

text \<open>
  Every exception that can reach the \<open>except Exception as e\<close> clause of
  \<open>main.py\<close>, with the text \<open>str(e)\<close> it carries.
  \<^item> \<open>ValueError\<close>: \<open>parse_document\<close> on an unsupported extension;
  \<^item> \<open>Exception\<close>: \<open>parse_document\<close> wrapping a loader failure;
  \<^item> \<open>ModelCallError\<close>: any failure of a language-model call (network, authentication,
    rate limit), propagated unchanged through the agent and the graph;
  \<^item> \<open>KeyError\<close>: LangGraph looking up a router result missing from a path map;
  \<^item> \<open>IndexError\<close>: \<open>state["messages"][-1]\<close> on an empty list;
  \<^item> \<open>GraphRecursionError\<close>: LangGraph's recursion limit exceeded;
  \<^item> \<open>OSError\<close>: a failing system call on a path (\<open>FileNotFoundError\<close>,
    \<open>NotADirectoryError\<close>, \<open>IsADirectoryError\<close>, \<open>FileExistsError\<close>), with the
    \<open>errno\<close> that selects the subclass and the file name.
\<close>

datatype errno = ENOENT | ENOTDIR | EISDIR | EEXIST

fun errno_code :: "errno \<Rightarrow> string" where
  "errno_code ENOENT = ''2''"
| "errno_code ENOTDIR = ''20''"
| "errno_code EISDIR = ''21''"
| "errno_code EEXIST = ''17''"

fun strerror :: "errno \<Rightarrow> string" where
  "strerror ENOENT = ''No such file or directory''"
| "strerror ENOTDIR = ''Not a directory''"
| "strerror EISDIR = ''Is a directory''"
| "strerror EEXIST = ''File exists''"

text \<open>
  \<open>repr\<close> of a \<open>str\<close> (CPython \<open>unicode_repr\<close>), with a character read as its
  Latin-1 code point: single quotes unless the text has a single and no double quote;
  the chosen quote and the backslash escaped; tab, newline and return as \<open>\\t\<close>,
  \<open>\\n\<close>, \<open>\\r\<close>; the other non-printable code points (controls, DEL, 0x80 to
  0xA0 and the soft hyphen 0xAD) as \<open>\\x\<close> and two lower-case hex digits.
\<close>

definition hex_digit :: "nat \<Rightarrow> char" where
  "hex_digit d = (if d < 10 then char_of (48 + d) else char_of (87 + d))"

definition py_repr_char :: "char \<Rightarrow> char \<Rightarrow> string" where
  "py_repr_char q c =
     (if c = q \<or> c = CHR 0x5C then [CHR 0x5C, c]
      else if c = CHR 0x09 then [CHR 0x5C, CHR ''t'']
      else if c = CHR 0x0A then [CHR 0x5C, CHR ''n'']
      else if c = CHR 0x0D then [CHR 0x5C, CHR ''r'']
      else if (of_char c :: nat) < 32 \<or> of_char c = (127 :: nat) \<or>
              (128 \<le> (of_char c :: nat) \<and> (of_char c :: nat) \<le> 160) \<or> of_char c = (173 :: nat)
      then [CHR 0x5C, CHR ''x'', hex_digit (of_char c div 16), hex_digit (of_char c mod 16)]
      else [c])"

definition py_repr :: "string \<Rightarrow> string" where
  "py_repr s =
     (let q = (if CHR 0x27 \<in> set s \<and> CHR 0x22 \<notin> set s then CHR 0x22 else CHR 0x27)
      in q # concat (map (py_repr_char q) s) @ [q])"

datatype exc =
    ValueError string
  | Exception string
  | ModelCallError string
  | KeyError string
  | IndexError string
  | GraphRecursionError string
  | OSError errno string

fun exc_str :: "exc \<Rightarrow> string" where
  "exc_str (ValueError m) = m"
| "exc_str (Exception m) = m"
| "exc_str (ModelCallError m) = m"
| "exc_str (KeyError k) = py_repr k"
| "exc_str (IndexError m) = m"
| "exc_str (GraphRecursionError m) = m"
| "exc_str (OSError e filename) =
     ''[Errno '' @ errno_code e @ ''] '' @ strerror e @ '': '' @ py_repr filename"

text \<open>\<open>str.rfind\<close>: the index of the last occurrence, or -1.\<close>

fun rfind :: "char \<Rightarrow> string \<Rightarrow> int" where
  "rfind c [] = -1"
| "rfind c (x # xs) =
     (let r = rfind c xs in if 0 \<le> r then r + 1 else if x = c then 0 else -1)"

type_synonym bytes = "8 word list"

section \<open>Python string builtins\<close>

text \<open>
  \<open>str.lower\<close> and \<open>str.upper\<close> on the Latin-1 code points: the ASCII letters and the
  Latin-1 letters \<open>U+00C0..U+00DE\<close> / \<open>U+00E0..U+00FE\<close> (without the signs
  \<open>U+00D7\<close> and \<open>U+00F7\<close>) are 32 apart. Lower-casing is closed on Latin-1 and exact.
  Three lower-case letters have an upper case outside Latin-1 (\<open>U+00B5\<close>,
  \<open>U+00DF\<close>, \<open>U+00FF\<close>); \<open>py_upper_char\<close> leaves them unchanged.
\<close>

definition py_lower_char :: "char \<Rightarrow> char" where
  "py_lower_char c =
     (if (65 \<le> (of_char c :: nat) \<and> (of_char c :: nat) \<le> 90) \<or>
         (192 \<le> (of_char c :: nat) \<and> (of_char c :: nat) \<le> 222 \<and> (of_char c :: nat) \<noteq> 215)
      then char_of (of_char c + (32 :: nat)) else c)"

definition py_upper_char :: "char \<Rightarrow> char" where
  "py_upper_char c =
     (if (97 \<le> (of_char c :: nat) \<and> (of_char c :: nat) \<le> 122) \<or>
         (224 \<le> (of_char c :: nat) \<and> (of_char c :: nat) \<le> 254 \<and> (of_char c :: nat) \<noteq> 247)
      then char_of (of_char c - (32 :: nat)) else c)"

definition py_lower :: "string \<Rightarrow> string" where
  "py_lower s = map py_lower_char s"

fun py_capitalize :: "string \<Rightarrow> string" where
  "py_capitalize [] = []"
| "py_capitalize (c # cs) = py_upper_char c # map py_lower_char cs"

text \<open>\<open>str.endswith\<close>.\<close>

definition py_endswith :: "string \<Rightarrow> string \<Rightarrow> bool" where
  "py_endswith s suffix \<longleftrightarrow> length suffix \<le> length s \<and> drop (length s - length suffix) s = suffix"

section \<open>Generic lemmas\<close>

lemma py_lower_char_idem [simp]: "py_lower_char (py_lower_char c) = py_lower_char c"
  by (auto simp: py_lower_char_def)

lemmas py_str_eval = py_lower_char_def py_upper_char_def char_of_eq_iff

lemma py_lower_idem [simp]: "py_lower (py_lower s) = py_lower s"
  by (simp add: py_lower_def)

lemma length_py_lower [simp]: "length (py_lower s) = length s"
  by (simp add: py_lower_def)

lemma py_lower_Nil [simp]: "py_lower [] = []"
  by (simp add: py_lower_def)

lemma py_lower_Cons [simp]: "py_lower (c # s) = py_lower_char c # py_lower s"
  by (simp add: py_lower_def)

lemma rfind_cases:
  "rfind c p = -1 \<and> c \<notin> set p \<or>
   (0 \<le> rfind c p \<and> nat (rfind c p) < length p \<and> p ! nat (rfind c p) = c \<and>
    c \<notin> set (drop (Suc (nat (rfind c p))) p))"
proof (induction p)
  case Nil
  then show ?case by simp
next
  case (Cons x xs)
  then show ?case
    by (auto simp: Let_def nat_add_distrib) 
qed

lemma py_lower_char_fixed:
  assumes "\<not> (65 \<le> (of_char d :: nat) \<and> (of_char d :: nat) \<le> 122)"
    and "\<not> (192 \<le> (of_char d :: nat) \<and> (of_char d :: nat) \<le> 254)"
  shows "py_lower_char c = d \<longleftrightarrow> c = d"
proof
  assume l: "py_lower_char c = d"
  show "c = d"
  proof (cases "(65 \<le> (of_char c :: nat) \<and> (of_char c :: nat) \<le> 90) \<or>
      (192 \<le> (of_char c :: nat) \<and> (of_char c :: nat) \<le> 222 \<and> (of_char c :: nat) \<noteq> 215)")
    case True
    then have "(of_char d :: nat) = of_char c + 32"
      using l by (auto simp: py_lower_char_def)
    with True assms have False by linarith
    then show ?thesis ..
  next
    case False
    with l show ?thesis by (simp add: py_lower_char_def)
  qed
next
  assume "c = d"
  with assms show "py_lower_char c = d" by (auto simp: py_lower_char_def)
qed

lemma py_endswith_py_lower:
  "py_endswith (py_lower s) suffix \<longleftrightarrow>
     (\<exists>a b. s = a @ b \<and> py_lower b = suffix)"
proof
  assume "py_endswith (py_lower s) suffix"
  then show "\<exists>a b. s = a @ b \<and> py_lower b = suffix"
    by (intro exI [of _ "take (length s - length suffix) s"] exI [of _ "drop (length s - length suffix) s"])
       (auto simp: py_endswith_def py_lower_def drop_map)
next
  assume "\<exists>a b. s = a @ b \<and> py_lower b = suffix"
  then show "py_endswith (py_lower s) suffix"
    by (auto simp: py_endswith_def py_lower_def)
qed

lemma map2_map_same: "map2 f (map g xs) (map h xs) = map (\<lambda>x. f (g x) (h x)) xs"
  by (induction xs) simp_all

lemma sum_case_Inl_eq [simp]:
  "(case x of Inl e \<Rightarrow> Inl e | Inr v \<Rightarrow> f v) = Inl e' \<longleftrightarrow>
     x = Inl e' \<or> (\<exists>v. x = Inr v \<and> f v = Inl e')"
  by (cases x) auto

lemma sum_case_Inr_eq [simp]:
  "(case x of Inl e \<Rightarrow> Inl e | Inr v \<Rightarrow> f v) = Inr r \<longleftrightarrow>
     (\<exists>v. x = Inr v \<and> f v = Inr r)"
  by (cases x) auto

end
