(* ===== verification/AgentState.thy ===== *)
theory AgentState
  imports Prelude
begin

text \<open>
  The conversation state shared by the three agents (\<open>AgentState\<close>, declared
  identically in \<open>workflow.py\<close>, \<open>reader_agent.py\<close>, \<open>extractor_agent.py\<close> and
  \<open>validator_agent.py\<close>), the partial update a node returns, and LangGraph's way of
  merging an update into the state: the \<open>messages\<close> channel is reduced with
  \<open>add_messages\<close>, the \<open>sender\<close> and \<open>count\<close> channels keep the last value
  written.
\<close>

section \<open>Messages and the state\<close>

text \<open>
  A message is a LangChain \<open>HumanMessage\<close>: the initial message is built so in
  \<open>main.py\<close>, and \<open>add_messages\<close> turns every plain string a node returns into one.
  Only the \<open>content\<close> is read by the program.
\<close>

datatype message = HumanMessage (content: string)

record AgentState =
  messages :: "message list"
  sender :: string
  count :: int

text \<open>The dictionary a node function returns.\<close>

record node_update =
  upd_messages :: "string list"
  upd_sender :: string
  upd_count :: int

datatype node = Reader | Extractor | Validator

fun node_name :: "node \<Rightarrow> string" where
  "node_name Reader = ''reader''"
| "node_name Extractor = ''extractor''"
| "node_name Validator = ''validator''"

section \<open>Reducers\<close>

text \<open>
  \<open>add_messages left right\<close> converts each new entry to a message and appends it.
  LangGraph replaces an existing message only when a new one carries the same message
  id; the strings a node returns get fresh ids, so for this program the reducer is an
  append.
\<close>

definition add_messages :: "message list \<Rightarrow> string list \<Rightarrow> message list" where
  "add_messages left right = left @ map HumanMessage right"

definition apply_update :: "AgentState \<Rightarrow> node_update \<Rightarrow> AgentState" where
  "apply_update s u =
     s\<lparr>messages := add_messages (messages s) (upd_messages u),
       sender := upd_sender u,
       count := upd_count u\<rparr>"

text \<open>
  The input of the run, \<open>initial_state\<close> in \<open>main.py\<close>, written into empty channels.
\<close>

definition initial_state :: "string \<Rightarrow> AgentState" where
  "initial_state file_content =
     \<lparr>messages = [HumanMessage file_content], sender = '''', count = 0\<rparr>"

section \<open>Lemmas\<close>

lemma apply_update_fields [simp]:
  "messages (apply_update s u) = messages s @ map HumanMessage (upd_messages u)"
  "sender (apply_update s u) = upd_sender u"
  "count (apply_update s u) = upd_count u"
  by (simp_all add: apply_update_def add_messages_def)

lemma initial_state_fields [simp]:
  "messages (initial_state c) = [HumanMessage c]"
  "sender (initial_state c) = ''''"
  "count (initial_state c) = 0"
  by (simp_all add: initial_state_def)

lemma node_name_inject [simp]: "node_name n = node_name m \<longleftrightarrow> n = m"
  by (cases n; cases m) simp_all

lemma node_name_nonempty [simp]: "node_name n \<noteq> ''''"
  by (cases n) simp_all

end
