(* ===== verification/Router.thy ===== *)
theory Router
  imports AgentState
begin

text \<open>
  The conditional-edge function \<open>router\<close> of \<open>workflow.py\<close>. It reads the retry
  counter, the content of the most recent message and the last sender, and returns the
  name of the next node or LangGraph's \<open>END\<close> marker (the string
  \<open>''__end__''\<close>). Python evaluates \<open>count >= 3 or messages[-1].content == 'Yes'\<close>
  left to right: the list is indexed only when the counter is below 3, and indexing an
  empty list raises \<open>IndexError\<close>.
\<close>

section \<open>Definitions\<close>

definition END :: string where
  "END = ''__end__''"

definition router :: "AgentState \<Rightarrow> exc + string" where
  "router state =
     (if 3 \<le> count state then Inr END
      else (case messages state of
              [] \<Rightarrow> Inl (IndexError ''list index out of range'')
            | _ \<Rightarrow>
              if content (last (messages state)) = ''Yes'' then Inr END
              else if sender state = ''reader'' then Inr ''extractor''
              else if sender state = ''extractor'' then Inr ''validator''
              else if sender state = ''validator'' then Inr ''extractor''
              else Inr ''reader''))"

text \<open>
  The stop condition of the first branch, named for the lemmas below and for the
  abstract controller.
\<close>

definition stop_condition :: "AgentState \<Rightarrow> bool" where
  "stop_condition state \<longleftrightarrow>
     3 \<le> count state \<or> (messages state \<noteq> [] \<and> content (last (messages state)) = ''Yes'')"

declare router_def [node_defs]

section \<open>Lemmas\<close>

lemma END_neq [simp]:
  "END \<noteq> ''extractor''" "END \<noteq> ''validator''" "END \<noteq> ''reader''"
  "''extractor'' \<noteq> END" "''validator'' \<noteq> END" "''reader'' \<noteq> END"
  by (simp_all add: END_def)

text \<open>The router on a state with at least one message, branch by branch.\<close>

lemma router_nonempty:
  assumes "messages state \<noteq> []"
  shows "router state =
     Inr (if stop_condition state then END
          else if sender state = ''reader'' then ''extractor''
          else if sender state = ''extractor'' then ''validator''
          else if sender state = ''validator'' then ''extractor''
          else ''reader'')"
  using assms by (auto simp: router_def stop_condition_def neq_Nil_conv)

lemma router_END_iff:
  "router state = Inr END \<longleftrightarrow> stop_condition state"
  by (auto simp: router_def stop_condition_def split: list.splits)

section \<open>Properties of the router\<close>

text \<open>The router reproduces the specification's routing scenarios A to E: a fresh
  state goes to the reader, a reader message to the extractor, a "Yes" or a counter of 3
  ends the run whatever the sender, and a validator's corrections go back to the
  extractor.\<close>

theorem router_spec_scenarios:
  "router \<lparr>messages = [HumanMessage ''raw text''], sender = '''', count = 0\<rparr> = Inr ''reader'' \<and>
   router \<lparr>messages = [HumanMessage ''raw text'', HumanMessage ''normalized text''],
     sender = ''reader'', count = 0\<rparr> = Inr ''extractor'' \<and>
   router \<lparr>messages = [HumanMessage ''raw text'', HumanMessage ''Yes''],
     sender = ''validator'', count = 2\<rparr> = Inr END \<and>
   router \<lparr>messages = [HumanMessage ''raw text'', HumanMessage ''{...json...}''],
     sender = ''extractor'', count = 3\<rparr> = Inr END \<and>
   router \<lparr>messages = [HumanMessage ''raw text'', HumanMessage ''- Missing phone number''],
     sender = ''validator'', count = 1\<rparr> = Inr ''extractor''"
  by (simp add: router_def)

text \<open>C8: The retry ceiling is checked first: once the counter reaches 3 the router ends
  the run, whatever the sender and the messages, even on an empty history, where the
  stop-token test would raise IndexError.\<close>

theorem router_ceiling_first:
  assumes "3 \<le> count state"
  shows "router state = Inr END"
  using assms by (simp add: router_def)

text \<open>C23: The only exception the router raises is IndexError, and only when the counter is
  below 3 and the history is empty.\<close>

theorem router_raises_only_on_empty:
  "router state = Inl e \<longleftrightarrow>
     count state < 3 \<and> messages state = [] \<and> e = IndexError ''list index out of range''"
  by (auto simp: router_def split: list.splits)

text \<open>C9: Below the ceiling, a last message whose content is exactly "Yes" ends the run
  whichever stage wrote it: the stop token is not tied to the validator.\<close>

theorem router_yes_any_sender:
  assumes "count state < 3" and "messages state \<noteq> []"
    and "content (last (messages state)) = ''Yes''"
  shows "router state = Inr END"
  using assms by (auto simp: router_def neq_Nil_conv)

section \<open>Witnesses\<close>

theorem router_ceiling_first_witness:
  "router \<lparr>messages = [], sender = ''validator'', count = 5\<rparr> = Inr END"
  by (rule router_ceiling_first) simp

theorem router_yes_any_sender_witness:
  "router \<lparr>messages = [HumanMessage ''cv'', HumanMessage ''Yes''], sender = ''reader'', count = 0\<rparr>
     = Inr END"
  by (rule router_yes_any_sender) simp_all

end
