(* ===== verification/Agents.thy ===== *)
theory Agents
  imports AgentState
begin

text \<open>
  The three node functions \<open>reader_call\<close>, \<open>extractor_call\<close> and
  \<open>validator_call\<close>. Each builds a chat prompt from a fixed system instruction and the
  whole message history, sends it to the language model, and returns a one-message
  update tagged with its own name. Only the extractor increments \<open>count\<close>.

  The language model is an oracle \<open>llm\<close>: given the node (which fixes the system
  instruction) and the message history, it returns the completion text or raises an
  exception. Because every call of a run sees a strictly longer history than the call
  before it, a function of (node, history) can produce any sequence of answers: the
  oracle restricts nothing about the model's behaviour.
\<close>

section \<open>Definitions\<close>

type_synonym llm = "node \<Rightarrow> message list \<Rightarrow> exc + string"

text \<open>
  Each agent module declares its own \<open>AgentState\<close> TypedDict with the same keys, types
  and \<open>add_messages\<close> annotation as the one of \<open>workflow.py\<close>. A TypedDict is a
  structural type over a plain dict, so the three declarations denote the one record
  \<open>AgentState\<close>; each node's parameter type is named after its module's declaration.
\<close>

type_synonym reader_AgentState = AgentState
type_synonym extractor_AgentState = AgentState
type_synonym validator_AgentState = AgentState

definition reader_call :: "llm \<Rightarrow> reader_AgentState \<Rightarrow> exc + node_update" where
  "reader_call llm state =
     (case llm Reader (messages state) of
        Inl e \<Rightarrow> Inl e
      | Inr response \<Rightarrow>
          Inr \<lparr>upd_messages = [response], upd_sender = ''reader'',
               upd_count = count state\<rparr>)"

definition extractor_call :: "llm \<Rightarrow> extractor_AgentState \<Rightarrow> exc + node_update" where
  "extractor_call llm state =
     (case llm Extractor (messages state) of
        Inl e \<Rightarrow> Inl e
      | Inr response \<Rightarrow>
          (let new_count = count state + 1
           in Inr \<lparr>upd_messages = [response], upd_sender = ''extractor'',
                   upd_count = new_count\<rparr>))"

definition validator_call :: "llm \<Rightarrow> validator_AgentState \<Rightarrow> exc + node_update" where
  "validator_call llm state =
     (case llm Validator (messages state) of
        Inl e \<Rightarrow> Inl e
      | Inr response \<Rightarrow>
          Inr \<lparr>upd_messages = [response], upd_sender = ''validator'',
               upd_count = count state\<rparr>)"

text \<open>The node table of \<open>create_workflow\<close> (\<open>workflow.add_node\<close>).\<close>

fun call_node :: "node \<Rightarrow> llm \<Rightarrow> AgentState \<Rightarrow> exc + node_update" where
  "call_node Reader = reader_call"
| "call_node Extractor = extractor_call"
| "call_node Validator = validator_call"

text \<open>The update every node makes on success, in one formula.\<close>

definition node_effect :: "node \<Rightarrow> string \<Rightarrow> AgentState \<Rightarrow> node_update" where
  "node_effect n response state =
     \<lparr>upd_messages = [response], upd_sender = node_name n,
      upd_count = (if n = Extractor then count state + 1 else count state)\<rparr>"

declare reader_call_def [node_defs] extractor_call_def [node_defs]
  validator_call_def [node_defs]

section \<open>Lemmas\<close>

lemma call_node_Inr_iff:
  "call_node n llm state = Inr u \<longleftrightarrow>
     (\<exists>r. llm n (messages state) = Inr r \<and> u = node_effect n r state)"
  by (cases n) (auto simp: node_defs node_effect_def split: sum.splits)

lemma call_node_Inl_iff:
  "call_node n llm state = Inl e \<longleftrightarrow> llm n (messages state) = Inl e"
  by (cases n) (auto simp: node_defs split: sum.splits)

lemma node_effect_fields [simp]:
  "upd_messages (node_effect n r s) = [r]"
  "upd_sender (node_effect n r s) = node_name n"
  "upd_count (node_effect n r s) = (if n = Extractor then count s + 1 else count s)"
  by (simp_all add: node_effect_def)

lemma apply_node_effect [simp]:
  "messages (apply_update s (node_effect n r s)) = messages s @ [HumanMessage r]"
  "sender (apply_update s (node_effect n r s)) = node_name n"
  "count (apply_update s (node_effect n r s)) =
     (if n = Extractor then count s + 1 else count s)"
  by simp_all

section \<open>Properties of the nodes\<close>

text \<open>C10: A node that succeeds returns exactly one new message, tags the update with its
  own name, and changes the counter only if it is the extractor, which adds one.\<close>

theorem call_node_update_shape:
  assumes "call_node n llm state = Inr u"
  shows "length (upd_messages u) = 1 \<and> upd_sender u = node_name n \<and>
         upd_count u = count state + (if n = Extractor then 1 else 0)"
  using assms by (auto simp: call_node_Inr_iff)

text \<open>C11: A failing language-model call makes the node raise the same exception, with no
  update: there is no retry and no partial result at the node level.\<close>

theorem call_node_propagates_failure:
  assumes "llm n (messages state) = Inl e"
  shows "call_node n llm state = Inl e"
  using assms by (simp add: call_node_Inl_iff)

section \<open>Witnesses\<close>

theorem call_node_update_shape_witness:
  "length (upd_messages \<lparr>upd_messages = [''{json}''], upd_sender = ''extractor'', upd_count = 2\<rparr>) = 1 \<and>
   upd_sender \<lparr>upd_messages = [''{json}''], upd_sender = ''extractor'', upd_count = 2\<rparr> =
     node_name Extractor \<and>
   upd_count \<lparr>upd_messages = [''{json}''], upd_sender = ''extractor'', upd_count = 2\<rparr> =
     count \<lparr>messages = [HumanMessage ''cv''], sender = ''validator'', count = 1\<rparr> +
     (if Extractor = Extractor then 1 else 0)"
proof (rule call_node_update_shape)
  show "call_node Extractor (\<lambda>n ms. Inr ''{json}'')
      \<lparr>messages = [HumanMessage ''cv''], sender = ''validator'', count = 1\<rparr> =
    Inr \<lparr>upd_messages = [''{json}''], upd_sender = ''extractor'', upd_count = 2\<rparr>"
    by (simp add: node_defs)
qed

theorem call_node_propagates_failure_witness:
  "call_node Validator (\<lambda>n ms. Inl (ModelCallError ''Rate limit reached''))
     \<lparr>messages = [HumanMessage ''cv''], sender = ''extractor'', count = 1\<rparr> =
   Inl (ModelCallError ''Rate limit reached'')"
  by (rule call_node_propagates_failure) simp

end
