(* ===== verification/Workflow.thy ===== *)
theory Workflow
  imports Router Agents
begin

text \<open>
  The compiled graph of \<open>create_workflow\<close> and its execution by LangGraph's
  \<open>stream\<close>. \<open>create_workflow\<close> adds the three nodes, the unconditional edge
  \<open>START \<rightarrow> reader\<close>, and for each node a conditional edge: the router's result is
  looked up in that node's path map (a key missing from it raises \<open>KeyError\<close>).
  A run executes one node per super-step: the node's update is merged into the state,
  the branch is evaluated on the merged state, and the update is yielded to the caller
  (\<open>stream_mode="updates"\<close>). An exception raised by a node or a branch ends the
  stream; the updates yielded before it stay yielded. LangGraph bounds the number of
  super-steps by \<open>recursion_limit\<close> (25 by default, not changed by the program) and
  raises \<open>GraphRecursionError\<close> beyond it: this bound is the fuel of
  \<open>run_graph\<close>, so running out of fuel is the library's own behaviour, not an
  artefact of the model. The checkpointer the graph is compiled with is modelled on top of
  this run in \<open>Checkpointer\<close>.
\<close>

section \<open>Definitions\<close>

datatype target = Goto node | End

fun path_map :: "node \<Rightarrow> (string \<times> target) list" where
  "path_map Reader = [(''extractor'', Goto Extractor), (END, End)]"
| "path_map Extractor = [(''validator'', Goto Validator), (END, End)]"
| "path_map Validator = [(''extractor'', Goto Extractor), (END, End)]"

definition branch :: "node \<Rightarrow> AgentState \<Rightarrow> exc + target" where
  "branch n state =
     (case router state of
        Inl e \<Rightarrow> Inl e
      | Inr key \<Rightarrow>
          (case map_of (path_map n) key of
             None \<Rightarrow> Inl (KeyError key)
           | Some t \<Rightarrow> Inr t))"

definition recursion_limit :: nat where
  "recursion_limit = 25"

definition recursion_error :: exc where
  "recursion_error = GraphRecursionError
     ''Recursion limit of 25 reached without hitting a stop condition. You can increase the limit by setting the `recursion_limit` config key.''"

type_synonym event = "node \<times> node_update"

fun run_graph ::
  "nat \<Rightarrow> llm \<Rightarrow> node \<Rightarrow> AgentState \<Rightarrow> event list \<times> (exc + AgentState)" where
  "run_graph 0 llm n state = ([], Inl recursion_error)"
| "run_graph (Suc fuel) llm n state =
     (case call_node n llm state of
        Inl e \<Rightarrow> ([], Inl e)
      | Inr u \<Rightarrow>
          (let state' = apply_update state u in
           case branch n state' of
             Inl e \<Rightarrow> ([], Inl e)
           | Inr End \<Rightarrow> ([(n, u)], Inr state')
           | Inr (Goto m) \<Rightarrow>
               (let (evs, r) = run_graph fuel llm m state' in ((n, u) # evs, r))))"

text \<open>\<open>workflow.stream(initial_state, config)\<close>: the run starts at \<open>reader\<close>.\<close>

definition stream :: "llm \<Rightarrow> AgentState \<Rightarrow> event list \<times> (exc + AgentState)" where
  "stream llm input = run_graph recursion_limit llm Reader input"

text \<open>
  Derived notions for the lemmas: the node the graph moves to when it does not stop,
  the schedule of nodes visited from a node, and the number of super-steps a run from a
  node with a given counter can take at most.
\<close>

fun successor :: "node \<Rightarrow> node" where
  "successor Reader = Extractor"
| "successor Extractor = Validator"
| "successor Validator = Extractor"

fun sched :: "node \<Rightarrow> nat \<Rightarrow> node list" where
  "sched n 0 = []"
| "sched n (Suc k) = n # sched (successor n) k"

definition budget :: "node \<Rightarrow> int \<Rightarrow> nat" where
  "budget n c = (if n = Extractor then 1 + 2 * nat (2 - c) else 2 + 2 * nat (2 - c))"

section \<open>Lemmas\<close>

text \<open>One super-step, with the node and the branch evaluated.\<close>

lemma branch_after_node:
  assumes "messages s \<noteq> []" and "sender s = node_name n"
  shows "branch n s = Inr (if stop_condition s then End else Goto (successor n))"
  using assms by (cases n) (auto simp: branch_def router_nonempty END_def)

lemma run_graph_Suc_step:
  "run_graph (Suc f) llm n s =
    (case llm n (messages s) of
       Inl e \<Rightarrow> ([], Inl e)
     | Inr r \<Rightarrow>
         (let u = node_effect n r s; s' = apply_update s u in
          if stop_condition s' then ([(n, u)], Inr s')
          else ((n, u) # fst (run_graph f llm (successor n) s'),
                snd (run_graph f llm (successor n) s'))))"
proof (cases "llm n (messages s)")
  case (Inl e)
  then have "call_node n llm s = Inl e" by (simp add: call_node_Inl_iff)
  with Inl show ?thesis by simp
next
  case (Inr r)
  then have "call_node n llm s = Inr (node_effect n r s)" by (simp add: call_node_Inr_iff)
  moreover have "branch n (apply_update s (node_effect n r s)) =
      Inr (if stop_condition (apply_update s (node_effect n r s)) then End else Goto (successor n))"
    by (rule branch_after_node) simp_all
  ultimately show ?thesis using Inr by (simp add: Let_def split_beta)
qed

lemma budget_pos [simp]: "budget n c \<noteq> 0" "Suc 0 \<le> budget n c" "0 < budget n c"
  by (simp_all add: budget_def)

lemma budget_step:
  assumes "\<not> stop_condition (apply_update s (node_effect n r s))"
  shows "Suc (budget (successor n) (count (apply_update s (node_effect n r s)))) \<le> budget n (count s)"
  using assms by (cases n) (auto simp: budget_def stop_condition_def nat_diff_distrib)

declare run_graph.simps(2) [simp del] run_graph_Suc_step [run_simps] stop_condition_def [run_simps]

lemma run_graph_length: "length (fst (run_graph f llm n s)) \<le> budget n (count s)"
proof (induction f arbitrary: n s)
  case 0
  then show ?case by simp
next
  case (Suc f)
  show ?case
  proof (cases "llm n (messages s)")
    case (Inl e)
    then show ?thesis by (simp add: run_graph_Suc_step)
  next
    case (Inr r)
    let ?s' = "apply_update s (node_effect n r s)"
    show ?thesis
    proof (cases "stop_condition ?s'")
      case True
      with Inr show ?thesis by (simp add: run_graph_Suc_step budget_pos Let_def)
    next
      case False
      have "length (fst (run_graph f llm (successor n) ?s')) \<le> budget (successor n) (count ?s')"
        by (rule Suc.IH)
      with budget_step [OF False] Inr False show ?thesis
        by (simp add: run_graph_Suc_step Let_def)
    qed
  qed
qed

lemma run_graph_sched:
  "map fst (fst (run_graph f llm n s)) = sched n (length (fst (run_graph f llm n s)))"
proof (induction f arbitrary: n s)
  case 0
  then show ?case by simp
next
  case (Suc f)
  then show ?case
    by (simp add: run_graph_Suc_step Let_def split: sum.split)
qed

lemma run_graph_fuel_indep:
  "budget n (count s) \<le> f \<Longrightarrow> budget n (count s) \<le> g \<Longrightarrow>
   run_graph f llm n s = run_graph g llm n s"
proof (induction f arbitrary: n s g)
  case 0
  with budget_pos [of n "count s"] show ?case by simp
next
  case (Suc f)
  from Suc.prems(2) budget_pos [of n "count s"] obtain g' where g: "g = Suc g'"
    by (cases g) auto
  show ?case
  proof (cases "llm n (messages s)")
    case (Inl e)
    then show ?thesis by (simp add: g run_graph_Suc_step)
  next
    case (Inr r)
    let ?s' = "apply_update s (node_effect n r s)"
    show ?thesis
    proof (cases "stop_condition ?s'")
      case True
      with Inr show ?thesis by (simp add: g run_graph_Suc_step)
    next
      case False
      from budget_step [OF False] Suc.prems g
      have "run_graph f llm (successor n) ?s' = run_graph g' llm (successor n) ?s'"
        by (intro Suc.IH) simp_all
      with Inr False show ?thesis by (simp add: g run_graph_Suc_step Let_def)
    qed
  qed
qed

lemma run_graph_error_from_llm:
  "snd (run_graph f llm n s) = Inl e \<Longrightarrow> budget n (count s) \<le> f \<Longrightarrow>
   \<exists>m ms. llm m ms = Inl e"
proof (induction f arbitrary: n s)
  case 0
  with budget_pos [of n "count s"] show ?case by simp
next
  case (Suc f)
  show ?case
  proof (cases "llm n (messages s)")
    case (Inl e')
    with Suc.prems show ?thesis by (auto simp: run_graph_Suc_step)
  next
    case (Inr r)
    let ?s' = "apply_update s (node_effect n r s)"
    from Inr Suc.prems have ns: "\<not> stop_condition ?s'"
      by (auto simp: run_graph_Suc_step Let_def split: if_splits)
    with Inr Suc.prems have "snd (run_graph f llm (successor n) ?s') = Inl e"
      by (simp add: run_graph_Suc_step Let_def)
    moreover have "budget (successor n) (count ?s') \<le> f"
      using budget_step [OF ns] Suc.prems(2) by linarith
    ultimately show ?thesis by (rule Suc.IH)
  qed
qed

lemma run_graph_final:
  "snd (run_graph f llm n s) = Inr s' \<Longrightarrow>
   stop_condition s' \<and> s' = foldl apply_update s (map snd (fst (run_graph f llm n s)))"
proof (induction f arbitrary: n s)
  case 0
  then show ?case by simp
next
  case (Suc f)
  then show ?case
    by (auto simp: run_graph_Suc_step Let_def split: sum.splits if_splits)
qed

lemma budget_Reader_0 [simp]: "budget Reader 0 = 6"
  by (simp add: budget_def)

lemma run_graph_events:
  "\<forall>(m, u) \<in> set (fst (run_graph f llm n s)). \<exists>r s'. u = node_effect m r s'"
proof (induction f arbitrary: n s)
  case 0
  then show ?case by simp
next
  case (Suc f)
  then show ?case
    by (auto simp: run_graph_Suc_step Let_def split: sum.split)
qed

lemma sched_Reader_take:
  "k \<le> 6 \<Longrightarrow> sched Reader k = take k [Reader, Extractor, Validator, Extractor, Validator, Extractor]"
  by (auto simp: le_Suc_eq numeral_eq_Suc)

lemma stream_length_le_6: "length (fst (stream llm (initial_state c))) \<le> 6"
  using run_graph_length [of recursion_limit llm Reader "initial_state c"]
  by (simp add: stream_def budget_def)

section \<open>Properties of the run\<close>

text \<open>C1: Every run of the pipeline on a fresh state ends: the stream either returns a final state or stops with an exception that the language model itself raised. LangGraph never hits its recursion limit, and the graph itself raises no KeyError or IndexError.\<close>

theorem stream_terminates:
  "(\<exists>s'. snd (stream llm (initial_state raw)) = Inr s') \<or>
   (\<exists>e. snd (stream llm (initial_state raw)) = Inl e \<and> (\<exists>m ms. llm m ms = Inl e))"
proof (cases "snd (stream llm (initial_state raw))")
  case (Inl e)
  have b: "budget Reader (count (initial_state raw)) \<le> recursion_limit"
    by (simp add: recursion_limit_def)
  from Inl have "snd (run_graph recursion_limit llm Reader (initial_state raw)) = Inl e"
    by (simp add: stream_def)
  from run_graph_error_from_llm [OF this b] have "\<exists>m ms. llm m ms = Inl e" .
  with Inl show ?thesis by blast
qed simp

text \<open>C2: A run visits the nodes in the order reader, extractor, validator, extractor, validator, extractor, stopping somewhere along that list: at most six stage executions.\<close>

theorem stream_schedule_bounded:
  "map fst (fst (stream llm (initial_state raw))) =
     take (length (fst (stream llm (initial_state raw))))
       [Reader, Extractor, Validator, Extractor, Validator, Extractor] \<and>
   length (fst (stream llm (initial_state raw))) \<le> 6"
proof -
  have len: "length (fst (stream llm (initial_state raw))) \<le> 6" by (rule stream_length_le_6)
  have "map fst (fst (stream llm (initial_state raw))) =
      sched Reader (length (fst (stream llm (initial_state raw))))"
    unfolding stream_def by (rule run_graph_sched)
  with len sched_Reader_take show ?thesis by simp
qed

text \<open>C4: When a run returns, its final state satisfies the stop condition (count at least 3 or last message exactly Yes) and is the input state with the yielded updates merged in order: what the caller is shown is exactly what was applied.\<close>

theorem stream_final_state:
  assumes "snd (stream llm (initial_state raw)) = Inr s'"
  shows "(3 \<le> count s' \<or> content (last (messages s')) = ''Yes'') \<and>
         s' = foldl apply_update (initial_state raw) (map snd (fst (stream llm (initial_state raw))))"
proof -
  from assms have "stop_condition s' \<and>
      s' = foldl apply_update (initial_state raw) (map snd (fst (stream llm (initial_state raw))))"
    unfolding stream_def by (rule run_graph_final)
  then show ?thesis by (auto simp: stop_condition_def)
qed

text \<open>C20: The run does not depend on the recursion limit as long as it is at least 6: the default limit of 25 leaves the behaviour unchanged.\<close>

theorem stream_fuel_irrelevant:
  assumes "6 \<le> fuel"
  shows "run_graph fuel llm Reader (initial_state raw) = stream llm (initial_state raw)"
  unfolding stream_def using assms
  by (intro run_graph_fuel_indep) (simp_all add: recursion_limit_def)

text \<open>C7: If the reader answers exactly Yes, the run stops right after the reader and no extraction happens, although the stop token is meant for the validator.\<close>

theorem stream_reader_yes_stops:
  assumes "llm Reader [HumanMessage raw] = Inr ''Yes''"
  shows "stream llm (initial_state raw) =
    ([(Reader, \<lparr>upd_messages = [''Yes''], upd_sender = ''reader'', upd_count = 0\<rparr>)],
     Inr \<lparr>messages = [HumanMessage raw, HumanMessage ''Yes''], sender = ''reader'', count = 0\<rparr>)"
  using assms
  by (simp add: stream_def recursion_limit_def numeral_eq_Suc run_simps node_effect_def
      apply_update_def add_messages_def initial_state_def)

text \<open>C6: If the language model never fails and never answers Yes, the run executes the reader, then three extractions with a validation between consecutive ones, and ends after the third extraction with count 3: the last extraction is never validated.\<close>

theorem stream_never_yes_runs_out:
  assumes "\<forall>n ms. \<exists>r. llm n ms = Inr r \<and> r \<noteq> ''Yes''"
  shows "map fst (fst (stream llm (initial_state raw))) =
           [Reader, Extractor, Validator, Extractor, Validator, Extractor] \<and>
         (\<exists>s'. snd (stream llm (initial_state raw)) = Inr s' \<and> count s' = 3 \<and>
                sender s' = ''extractor'')"
proof -
  define resp where "resp n ms = (SOME r. llm n ms = Inr r \<and> r \<noteq> ''Yes'')" for n ms
  have spec: "llm n ms = Inr (resp n ms) \<and> resp n ms \<noteq> ''Yes''" for n ms
  proof -
    from assms have "\<exists>r. llm n ms = Inr r \<and> r \<noteq> ''Yes''" by blast
    then show ?thesis unfolding resp_def by (rule someI_ex)
  qed
  then have resp: "\<And>n ms. llm n ms = Inr (resp n ms)"
    and noyes: "\<And>n ms. resp n ms \<noteq> ''Yes''"
    by simp_all
  show ?thesis
    by (simp add: stream_def recursion_limit_def numeral_eq_Suc run_simps resp noyes Let_def)
qed

text \<open>C5: After any node has run, the router answers a key of that node's path map, so LangGraph never raises KeyError and the router's reader branch is never taken.\<close>

theorem path_map_covers_router:
  assumes "messages s \<noteq> []" and "sender s = node_name n"
  shows "\<exists>k t. router s = Inr k \<and> map_of (path_map n) k = Some t"
  using assms by (cases n) (auto simp: router_nonempty END_def)

section \<open>Witnesses\<close>

theorem path_map_covers_router_witness:
  "\<exists>k t. router \<lparr>messages = [HumanMessage ''cv'', HumanMessage ''clean cv''],
        sender = ''reader'', count = 0\<rparr> = Inr k \<and> map_of (path_map Reader) k = Some t"
  by (rule path_map_covers_router) simp_all

theorem stream_final_state_witness:
  "\<exists>s'. snd (stream (\<lambda>n ms. if n = Validator \<and> length ms = 3 then Inr ''Yes'' else Inr ''- fix name'')
       (initial_state ''cv'')) = Inr s' \<and> count s' = 1 \<and> content (last (messages s')) = ''Yes'' \<and>
     s' = foldl apply_update (initial_state ''cv'')
       (map snd (fst (stream (\<lambda>n ms. if n = Validator \<and> length ms = 3 then Inr ''Yes'' else Inr ''- fix name'')
         (initial_state ''cv''))))"
proof -
  let ?L = "\<lambda>n ms. if n = Validator \<and> length ms = 3 then Inr ''Yes'' else Inr ''- fix name''"
  let ?S = "\<lparr>messages = [HumanMessage ''cv'', HumanMessage ''- fix name'', HumanMessage ''- fix name'',
             HumanMessage ''Yes''], sender = ''validator'', count = 1\<rparr>"
  have run: "snd (stream ?L (initial_state ''cv'')) = Inr ?S"
    by (simp add: stream_def recursion_limit_def numeral_eq_Suc run_simps Let_def node_effect_def
        apply_update_def add_messages_def initial_state_def)
  show ?thesis
  proof (intro exI conjI)
    show "snd (stream ?L (initial_state ''cv'')) = Inr ?S" by (rule run)
    show "count ?S = 1" by simp
    show "content (last (messages ?S)) = ''Yes''" by simp
    show "?S = foldl apply_update (initial_state ''cv'') (map snd (fst (stream ?L (initial_state ''cv''))))"
      using stream_final_state [OF run] by (rule conjunct2)
  qed
qed

theorem stream_fuel_irrelevant_witness:
  "run_graph 7 (\<lambda>n ms. Inr ''- fix name'') Reader (initial_state ''cv'') =
   stream (\<lambda>n ms. Inr ''- fix name'') (initial_state ''cv'')"
  by (rule stream_fuel_irrelevant) simp

theorem stream_reader_yes_stops_witness:
  "stream (\<lambda>n ms. Inr ''Yes'') (initial_state ''cv'') =
    ([(Reader, \<lparr>upd_messages = [''Yes''], upd_sender = ''reader'', upd_count = 0\<rparr>)],
     Inr \<lparr>messages = [HumanMessage ''cv'', HumanMessage ''Yes''], sender = ''reader'', count = 0\<rparr>)"
  by (rule stream_reader_yes_stops) simp

theorem stream_never_yes_runs_out_witness:
  "map fst (fst (stream (\<lambda>n ms. Inr ''- missing phone'') (initial_state ''cv''))) =
     [Reader, Extractor, Validator, Extractor, Validator, Extractor] \<and>
   (\<exists>s'. snd (stream (\<lambda>n ms. Inr ''- missing phone'') (initial_state ''cv'')) = Inr s' \<and>
      count s' = 3 \<and> sender s' = ''extractor'')"
  by (rule stream_never_yes_runs_out) simp

end
