(* ===== verification/Controller.thy ===== *)
theory Controller
  imports Workflow
begin

text \<open>
  The abstract pipeline controller of the specification (section 4.2): states
  \<open>Start\<close>, one per stage, and \<open>Terminated\<close>; a stage appends one response of the
  language model (any string), sets \<open>sender\<close> and, for the extractor only, increments
  \<open>count\<close>; after every stage the routing rule picks the next state in the
  specification's priority order. The model's answers are left open, so the step
  relation is nondeterministic. The graph of \<open>Workflow\<close> refines it: every run of
  \<open>run_graph\<close> is a labelled path of the controller, and every path is produced by
  some language model. The invariants of the controller are proved by rule induction
  on its reachable states and carry over to every state the program passes through.
\<close>

section \<open>Definitions\<close>

datatype phase = Start | Stage node | Terminated

definition stage_effect :: "node \<Rightarrow> string \<Rightarrow> AgentState \<Rightarrow> AgentState" where
  "stage_effect n response s =
     s\<lparr>messages := messages s @ [HumanMessage response], sender := node_name n,
       count := (if n = Extractor then count s + 1 else count s)\<rparr>"

definition spec_route :: "AgentState \<Rightarrow> phase" where
  "spec_route s =
     (if 3 \<le> count s \<or> (messages s \<noteq> [] \<and> content (last (messages s)) = ''Yes'') then Terminated
      else if sender s = ''reader'' then Stage Extractor
      else if sender s = ''extractor'' then Stage Validator
      else if sender s = ''validator'' then Stage Extractor
      else Stage Reader)"

inductive ctl_step :: "phase \<times> AgentState \<Rightarrow> phase \<times> AgentState \<Rightarrow> bool" where
  start: "ctl_step (Start, s) (Stage Reader, s)"
| stage: "ctl_step (Stage n, s) (spec_route (stage_effect n r s), stage_effect n r s)"

inductive ctl_reach :: "string \<Rightarrow> phase \<times> AgentState \<Rightarrow> bool" for raw :: string where
  init: "ctl_reach raw (Start, initial_state raw)"
| step: "ctl_reach raw c \<Longrightarrow> ctl_step c c' \<Longrightarrow> ctl_reach raw c'"

text \<open>A path of stages labelled with the update each stage writes.\<close>

inductive ctl_path :: "phase \<times> AgentState \<Rightarrow> event list \<Rightarrow> phase \<times> AgentState \<Rightarrow> bool" where
  nil: "ctl_path c [] c"
| cons: "ctl_path (spec_route (stage_effect n r s), stage_effect n r s) evs c \<Longrightarrow>
         ctl_path (Stage n, s) ((n, node_effect n r s) # evs) c"

text \<open>The invariant of the reachable states, phase by phase.\<close>

fun ctl_inv :: "string \<Rightarrow> phase \<times> AgentState \<Rightarrow> bool" where
  "ctl_inv raw (Start, s) = (s = initial_state raw)"
| "ctl_inv raw (Stage Reader, s) = (s = initial_state raw)"
| "ctl_inv raw (Stage Extractor, s) =
     (hd (messages s) = HumanMessage raw \<and> 2 \<le> length (messages s) \<and>
      0 \<le> count s \<and> count s < 3 \<and> \<not> stop_condition s \<and>
      (sender s = ''reader'' \<or> sender s = ''validator''))"
| "ctl_inv raw (Stage Validator, s) =
     (hd (messages s) = HumanMessage raw \<and> 2 \<le> length (messages s) \<and>
      1 \<le> count s \<and> count s < 3 \<and> \<not> stop_condition s \<and> sender s = ''extractor'')"
| "ctl_inv raw (Terminated, s) =
     (hd (messages s) = HumanMessage raw \<and> 2 \<le> length (messages s) \<and>
      0 \<le> count s \<and> count s \<le> 3 \<and> stop_condition s \<and>
      (sender s = ''reader'' \<or> sender s = ''extractor'' \<or> sender s = ''validator''))"

text \<open>
  The value domains the specification gives the fields of the conversation state
  (section 3): a non-empty history, a sender that is empty or one of the three stage
  names, and a counter between 0 and the ceiling 3.
\<close>

definition wt_state :: "AgentState \<Rightarrow> bool" where
  "wt_state s \<longleftrightarrow>
     messages s \<noteq> [] \<and> sender s \<in> {'''', ''reader'', ''extractor'', ''validator''} \<and>
     0 \<le> count s \<and> count s \<le> 3"

text \<open>The oracle that answers the stages of a path in order, by the length of the history.\<close>

definition replay :: "nat \<Rightarrow> event list \<Rightarrow> llm" where
  "replay base evs m ms =
     (if base \<le> length ms \<and> length ms - base < length evs
      then Inr (hd (upd_messages (snd (evs ! (length ms - base)))))
      else Inl (ModelCallError ''no answer''))"

section \<open>Lemmas\<close>

inductive_cases ctl_step_StartE [elim!]: "ctl_step (Start, s) c"
inductive_cases ctl_step_StageE [elim!]: "ctl_step (Stage n, s) c"
inductive_cases ctl_step_TerminatedE [elim!]: "ctl_step (Terminated, s) c"

lemma stage_effect_fields [simp]:
  "messages (stage_effect n r s) = messages s @ [HumanMessage r]"
  "sender (stage_effect n r s) = node_name n"
  "count (stage_effect n r s) = (if n = Extractor then count s + 1 else count s)"
  by (simp_all add: stage_effect_def)

lemma apply_node_effect_eq: "apply_update s (node_effect n r s) = stage_effect n r s"
  by (simp add: apply_update_def add_messages_def node_effect_def stage_effect_def)

lemma spec_route_after_stage:
  "spec_route (stage_effect n r s) =
     (if stop_condition (stage_effect n r s) then Terminated else Stage (successor n))"
  by (cases n) (simp_all add: spec_route_def stop_condition_def)

lemma ctl_step_inv: "ctl_step c c' \<Longrightarrow> ctl_inv raw c \<Longrightarrow> ctl_inv raw c'"
proof (induction rule: ctl_step.induct)
  case (start s)
  then show ?case by simp
next
  case (stage n s r)
  then show ?case
    by (cases n) (auto simp: spec_route_after_stage stop_condition_def hd_append)
qed

lemma ctl_reach_ctl_inv: "ctl_reach raw c \<Longrightarrow> ctl_inv raw c"
proof (induction rule: ctl_reach.induct)
  case init
  then show ?case by simp
next
  case (step c c')
  then show ?case by (blast intro: ctl_step_inv)
qed

lemma run_graph_refines:
  "\<exists>c. ctl_path (Stage n, s) (fst (run_graph f llm n s)) c \<and>
     (case snd (run_graph f llm n s) of Inr s' \<Rightarrow> c = (Terminated, s') | Inl e \<Rightarrow> fst c \<noteq> Terminated)"
proof (induction f arbitrary: n s)
  case 0
  then show ?case by (auto intro: ctl_path.nil)
next
  case (Suc f)
  show ?case
  proof (cases "llm n (messages s)")
    case (Inl e)
    then show ?thesis by (auto simp: run_graph_Suc_step intro: ctl_path.nil)
  next
    case (Inr r)
    let ?s' = "stage_effect n r s"
    show ?thesis
    proof (cases "stop_condition ?s'")
      case True
      have "ctl_path (Stage n, s) [(n, node_effect n r s)] (Terminated, ?s')"
        using True by (intro ctl_path.cons) (simp add: spec_route_after_stage ctl_path.nil)
      with True Inr show ?thesis by (simp add: run_graph_Suc_step apply_node_effect_eq)
    next
      case False
      from Suc.IH obtain c where
        p: "ctl_path (Stage (successor n), ?s') (fst (run_graph f llm (successor n) ?s')) c" and
        r: "case snd (run_graph f llm (successor n) ?s') of Inr s' \<Rightarrow> c = (Terminated, s')
              | Inl e \<Rightarrow> fst c \<noteq> Terminated"
        by blast
      from p False have path: "ctl_path (Stage n, s) ((n, node_effect n r s) # fst (run_graph f llm (successor n) ?s')) c"
        by (intro ctl_path.cons) (simp add: spec_route_after_stage)
      have eq: "run_graph (Suc f) llm n s =
          ((n, node_effect n r s) # fst (run_graph f llm (successor n) ?s'),
           snd (run_graph f llm (successor n) ?s'))"
        using False Inr by (simp add: run_graph_Suc_step apply_node_effect_eq Let_def)
      show ?thesis unfolding eq fst_conv snd_conv using path r by blast
    qed
  qed
qed

lemma ctl_path_star: "ctl_path c evs c' \<Longrightarrow> ctl_step\<^sup>*\<^sup>* c c'"
proof (induction rule: ctl_path.induct)
  case (nil c)
  then show ?case by simp
next
  case (cons n r s evs c)
  then show ?case by (meson converse_rtranclp_into_rtranclp ctl_step.stage)
qed

lemma ctl_reach_star: "ctl_step\<^sup>*\<^sup>* c c' \<Longrightarrow> ctl_reach raw c \<Longrightarrow> ctl_reach raw c'"
  by (induction rule: rtranclp_induct) (auto intro: ctl_reach.step)

lemma ctl_reach_stage_reader: "ctl_reach raw (Stage Reader, initial_state raw)"
  by (rule ctl_reach.step [OF ctl_reach.init ctl_step.start])

text \<open>C3: Refinement: the updates the LangGraph run yields form a path of the abstract controller from the reader stage to a reachable state; a returned run ends in Terminated with the returned state, a failed run ends before Terminated.\<close>

theorem stream_refines_controller:
  "\<exists>c. ctl_path (Stage Reader, initial_state raw) (fst (stream llm (initial_state raw))) c \<and>
     ctl_reach raw c \<and>
     (case snd (stream llm (initial_state raw)) of
        Inr s' \<Rightarrow> c = (Terminated, s') | Inl e \<Rightarrow> fst c \<noteq> Terminated)"
proof -
  obtain c where p: "ctl_path (Stage Reader, initial_state raw) (fst (stream llm (initial_state raw))) c"
    and r: "case snd (stream llm (initial_state raw)) of
        Inr s' \<Rightarrow> c = (Terminated, s') | Inl e \<Rightarrow> fst c \<noteq> Terminated"
    using run_graph_refines [of Reader "initial_state raw" recursion_limit llm]
    unfolding stream_def by blast
  from ctl_reach_star [OF ctl_path_star [OF p] ctl_reach_stage_reader] p r show ?thesis by blast
qed

text \<open>C18: The final state of every returned run starts with the document text, holds at least two messages, has a counter between 0 and 3 and a sender that is one of the three stages.\<close>

theorem stream_final_invariant:
  assumes "snd (stream llm (initial_state raw)) = Inr s'"
  shows "hd (messages s') = HumanMessage raw \<and> 2 \<le> length (messages s') \<and>
         0 \<le> count s' \<and> count s' \<le> 3 \<and>
         (sender s' = ''reader'' \<or> sender s' = ''extractor'' \<or> sender s' = ''validator'')"
proof -
  obtain c where p: "ctl_path (Stage Reader, initial_state raw) (fst (stream llm (initial_state raw))) c"
    and r: "case snd (stream llm (initial_state raw)) of
        Inr s' \<Rightarrow> c = (Terminated, s') | Inl e \<Rightarrow> fst c \<noteq> Terminated"
    using run_graph_refines [of Reader "initial_state raw" recursion_limit llm]
    unfolding stream_def by blast
  from r assms have "c = (Terminated, s')" by simp
  with ctl_reach_star [OF ctl_path_star [OF p] ctl_reach_stage_reader]
  have "ctl_inv raw (Terminated, s')" using ctl_reach_ctl_inv by blast
  then show ?thesis by simp
qed

lemma run_graph_llm_cong:
  "(\<And>m ms. length (messages s) \<le> length ms \<Longrightarrow> llm m ms = llm' m ms) \<Longrightarrow>
   run_graph f llm n s = run_graph f llm' n s"
proof (induction f arbitrary: n s)
  case 0
  then show ?case by simp
next
  case (Suc f)
  have eq: "llm n (messages s) = llm' n (messages s)" by (rule Suc.prems) simp
  show ?case
  proof (cases "llm n (messages s)")
    case (Inl e)
    moreover from Inl eq have "llm' n (messages s) = Inl e" by simp
    ultimately show ?thesis by (simp add: run_graph_Suc_step)
  next
    case (Inr r)
    have "run_graph f llm (successor n) (apply_update s (node_effect n r s)) =
          run_graph f llm' (successor n) (apply_update s (node_effect n r s))"
      by (rule Suc.IH) (simp add: Suc.prems)
    moreover from Inr eq have "llm' n (messages s) = Inr r" by simp
    ultimately show ?thesis using Inr by (simp add: run_graph_Suc_step Let_def)
  qed
qed

lemma replay_Cons:
  "Suc base \<le> length ms \<Longrightarrow> replay base (e # evs) m ms = replay (Suc base) evs m ms"
  by (auto simp: replay_def Suc_diff_Suc [symmetric] not_less_eq_eq)

lemma ctl_path_from_Terminated: "ctl_path (Terminated, s) evs c \<Longrightarrow> evs = [] \<and> c = (Terminated, s)"
  by (auto elim: ctl_path.cases)

lemma ctl_path_realised_aux:
  "ctl_path c evs c' \<Longrightarrow> c = (Stage n, s) \<Longrightarrow> c' = (Terminated, s') \<Longrightarrow> length evs \<le> f \<Longrightarrow>
   run_graph f (replay (length (messages s)) evs) n s = (evs, Inr s')"
proof (induction arbitrary: n s f rule: ctl_path.induct)
  case (nil c)
  then show ?case by simp
next
  case (cons n' r s0 evs c)
  then have n: "n' = n" and s: "s0 = s" by simp_all
  from cons.prems obtain f' where f: "f = Suc f'" by (cases f) auto
  have ask: "replay (length (messages s)) ((n, node_effect n r s) # evs) n (messages s) = Inr r"
    by (simp add: replay_def node_effect_def)
  show ?case
  proof (cases "stop_condition (stage_effect n r s)")
    case True
    with cons.hyps n s have "evs = [] \<and> c = (Terminated, stage_effect n r s)"
      by (simp add: spec_route_after_stage ctl_path_from_Terminated)
    with cons.prems True ask show ?thesis
      by (simp add: n s f run_graph_Suc_step apply_node_effect_eq)
  next
    case False
    have rec: "run_graph f' (replay (length (messages (stage_effect n r s))) evs) (successor n) (stage_effect n r s)
        = (evs, Inr s')"
      using cons.prems False n s f by (intro cons.IH) (simp_all add: spec_route_after_stage)
    have "run_graph f' (replay (length (messages s)) ((n, node_effect n r s) # evs)) (successor n) (stage_effect n r s)
        = run_graph f' (replay (length (messages (stage_effect n r s))) evs) (successor n) (stage_effect n r s)"
      by (rule run_graph_llm_cong) (simp add: replay_Cons)
    with rec False ask show ?thesis
      by (simp add: n s f run_graph_Suc_step apply_node_effect_eq Let_def)
  qed
qed

text \<open>C17: Completeness of the refinement: every path of the abstract controller that ends in Terminated is produced by the graph for some language model, so the model of the program restricts nothing the specification allows.\<close>

theorem controller_path_realised:
  assumes "ctl_path (Stage n, s) evs (Terminated, s')" and "length evs \<le> f"
  shows "\<exists>llm. run_graph f llm n s = (evs, Inr s')"
  using ctl_path_realised_aux [OF assms(1) refl refl assms(2)] by blast

lemma ctl_inv_wt_state: "ctl_inv raw (ph, s) \<Longrightarrow> wt_state s"
  by (cases "(raw, (ph, s))" rule: ctl_inv.cases) (auto simp: wt_state_def)

lemma ctl_path_prefix_reach:
  "ctl_path c evs c' \<Longrightarrow> ctl_reach raw c \<Longrightarrow> k \<le> length evs \<Longrightarrow>
   \<exists>ph. ctl_reach raw (ph, foldl apply_update (snd c) (map snd (take k evs)))"
proof (induction arbitrary: k rule: ctl_path.induct)
  case (nil c)
  then show ?case by (cases c) auto
next
  case (cons n r s evs c)
  show ?case
  proof (cases k)
    case 0
    with cons.prems show ?thesis by auto
  next
    case (Suc k')
    have "ctl_reach raw (spec_route (stage_effect n r s), stage_effect n r s)"
      using cons.prems(1) by (blast intro: ctl_reach.step ctl_step.stage)
    with cons.IH [of k'] cons.prems(2) Suc show ?thesis by (simp add: apply_node_effect_eq)
  qed
qed

lemma ctl_path_event_reach:
  "ctl_path c evs c' \<Longrightarrow> ctl_reach raw c \<Longrightarrow> (n, u) \<in> set evs \<Longrightarrow>
   \<exists>r s. ctl_reach raw (Stage n, s) \<and> u = node_effect n r s"
proof (induction rule: ctl_path.induct)
  case (cons n' r s evs c)
  have "ctl_reach raw (spec_route (stage_effect n' r s), stage_effect n' r s)"
    using cons.prems(1) by (blast intro: ctl_reach.step ctl_step.stage)
  with cons show ?case by auto
qed simp

lemma stream_prefix_wt_state:
  assumes "k \<le> length (fst (stream llm (initial_state raw)))"
  shows "wt_state (foldl apply_update (initial_state raw) (map snd (take k (fst (stream llm (initial_state raw))))))"
proof -
  obtain c where p: "ctl_path (Stage Reader, initial_state raw) (fst (stream llm (initial_state raw))) c"
    using run_graph_refines [of Reader "initial_state raw" recursion_limit llm] by (auto simp: stream_def)
  have r: "ctl_reach raw (Stage Reader, initial_state raw)" by (rule ctl_reach_stage_reader)
  from ctl_path_prefix_reach [OF p r assms] obtain ph where
    "ctl_reach raw (ph, foldl apply_update (initial_state raw) (map snd (take k (fst (stream llm (initial_state raw))))))"
    by auto
  then show ?thesis by (blast dest: ctl_reach_ctl_inv ctl_inv_wt_state)
qed

lemma ctl_path_count:
  "ctl_path c evs c' \<Longrightarrow> k \<le> length evs \<Longrightarrow>
   count (foldl apply_update (snd c) (map snd (take k evs))) =
     count (snd c) + int (length (filter (\<lambda>(n, u). n = Extractor) (take k evs)))"
proof (induction arbitrary: k rule: ctl_path.induct)
  case (cons n r s evs c)
  show ?case
  proof (cases k)
    case (Suc k')
    with cons.prems cons.IH [of k'] show ?thesis
      by (simp add: apply_node_effect_eq)
  qed simp
qed simp

text \<open>C19: The retry counter counts the extractions: at every point of a run, whatever
  the language model answers, the counter of the state equals the number of extractor
  updates streamed so far; the reader and the validator leave it unchanged and the
  channel keeps the last value written.\<close>

theorem stream_count_extractions:
  "\<forall>k \<le> length (fst (stream llm (initial_state raw))).
     count (foldl apply_update (initial_state raw) (map snd (take k (fst (stream llm (initial_state raw)))))) =
       int (length (filter (\<lambda>(n, u). n = Extractor) (take k (fst (stream llm (initial_state raw))))))"
proof (intro allI impI)
  fix k assume k: "k \<le> length (fst (stream llm (initial_state raw)))"
  obtain c where p: "ctl_path (Stage Reader, initial_state raw) (fst (stream llm (initial_state raw))) c"
    using run_graph_refines [of Reader "initial_state raw" recursion_limit llm] by (auto simp: stream_def)
  from ctl_path_count [OF p k]
  show "count (foldl apply_update (initial_state raw) (map snd (take k (fst (stream llm (initial_state raw)))))) =
       int (length (filter (\<lambda>(n, u). n = Extractor) (take k (fst (stream llm (initial_state raw))))))"
    by (simp add: initial_state_def)
qed

text \<open>C27: Typing of the conversation state: every state the run passes through (the
  input with the first k yielded updates merged) has a non-empty history, a sender that is
  empty or a stage name and a counter in 0..3, and every yielded update has exactly one
  message, its node's name as sender and a counter in 0..3.\<close>

theorem stream_states_well_typed:
  "(\<forall>k \<le> length (fst (stream llm (initial_state raw))).
      wt_state (foldl apply_update (initial_state raw)
                  (map snd (take k (fst (stream llm (initial_state raw))))))) \<and>
   (\<forall>(n, u) \<in> set (fst (stream llm (initial_state raw))).
      length (upd_messages u) = 1 \<and> upd_sender u = node_name n \<and> 0 \<le> upd_count u \<and> upd_count u \<le> 3)"
proof -
  obtain c where p: "ctl_path (Stage Reader, initial_state raw) (fst (stream llm (initial_state raw))) c"
    using run_graph_refines [of Reader "initial_state raw" recursion_limit llm] by (auto simp: stream_def)
  have r: "ctl_reach raw (Stage Reader, initial_state raw)" by (rule ctl_reach_stage_reader)
  have states: "\<forall>k \<le> length (fst (stream llm (initial_state raw))).
      wt_state (foldl apply_update (initial_state raw) (map snd (take k (fst (stream llm (initial_state raw))))))"
    by (blast intro: stream_prefix_wt_state)
  have "length (upd_messages u) = 1 \<and> upd_sender u = node_name n \<and> 0 \<le> upd_count u \<and> upd_count u \<le> 3"
    if "(n, u) \<in> set (fst (stream llm (initial_state raw)))" for n u
  proof -
    from ctl_path_event_reach [OF p r that] obtain r' s where
      reach: "ctl_reach raw (Stage n, s)" and u: "u = node_effect n r' s" by blast
    from ctl_reach_ctl_inv [OF reach] u show ?thesis by (cases n) auto
  qed
  with states show ?thesis by blast
qed

section \<open>Witnesses\<close>

theorem stream_final_invariant_witness:
  "hd (messages \<lparr>messages = [HumanMessage ''cv'', HumanMessage ''Yes''], sender = ''reader'', count = 0\<rparr>) =
     HumanMessage ''cv'' \<and>
   2 \<le> length (messages \<lparr>messages = [HumanMessage ''cv'', HumanMessage ''Yes''], sender = ''reader'', count = 0\<rparr>) \<and>
   0 \<le> count \<lparr>messages = [HumanMessage ''cv'', HumanMessage ''Yes''], sender = ''reader'', count = 0\<rparr> \<and>
   count \<lparr>messages = [HumanMessage ''cv'', HumanMessage ''Yes''], sender = ''reader'', count = 0\<rparr> \<le> 3 \<and>
   (sender \<lparr>messages = [HumanMessage ''cv'', HumanMessage ''Yes''], sender = ''reader'', count = 0\<rparr> = ''reader'' \<or>
    sender \<lparr>messages = [HumanMessage ''cv'', HumanMessage ''Yes''], sender = ''reader'', count = 0\<rparr> = ''extractor'' \<or>
    sender \<lparr>messages = [HumanMessage ''cv'', HumanMessage ''Yes''], sender = ''reader'', count = 0\<rparr> = ''validator'')"
proof (rule stream_final_invariant)
  show "snd (stream (\<lambda>n ms. Inr ''Yes'') (initial_state ''cv'')) =
      Inr \<lparr>messages = [HumanMessage ''cv'', HumanMessage ''Yes''], sender = ''reader'', count = 0\<rparr>"
    by (simp add: stream_def recursion_limit_def numeral_eq_Suc run_simps node_effect_def
        apply_update_def add_messages_def initial_state_def)
qed

theorem controller_path_realised_witness:
  "\<exists>llm. run_graph 1 llm Reader (initial_state ''cv'') =
     ([(Reader, node_effect Reader ''Yes'' (initial_state ''cv''))],
      Inr (stage_effect Reader ''Yes'' (initial_state ''cv'')))"
proof (rule controller_path_realised)
  show "ctl_path (Stage Reader, initial_state ''cv'') [(Reader, node_effect Reader ''Yes'' (initial_state ''cv''))]
      (Terminated, stage_effect Reader ''Yes'' (initial_state ''cv''))"
  proof (rule ctl_path.cons)
    have "spec_route (stage_effect Reader ''Yes'' (initial_state ''cv'')) = Terminated"
      by (simp add: spec_route_def stage_effect_def initial_state_def)
    then show "ctl_path (spec_route (stage_effect Reader ''Yes'' (initial_state ''cv'')),
        stage_effect Reader ''Yes'' (initial_state ''cv'')) []
      (Terminated, stage_effect Reader ''Yes'' (initial_state ''cv''))"
      by (simp add: ctl_path.nil)
  qed
  show "length [(Reader, node_effect Reader ''Yes'' (initial_state ''cv''))] \<le> 1" by simp
qed

theorem stream_states_well_typed_witness:
  "wt_state (foldl apply_update (initial_state ''Jane Doe'')
      (map snd (take 2 (fst (stream (\<lambda>n ms. Inr ''ok'') (initial_state ''Jane Doe'')))))) \<and>
   length (fst (stream (\<lambda>n ms. Inr ''ok'') (initial_state ''Jane Doe''))) = 6"
proof -
  have len: "length (fst (stream (\<lambda>n ms. Inr ''ok'') (initial_state ''Jane Doe''))) = 6"
    by (simp add: stream_def recursion_limit_def numeral_eq_Suc run_simps Let_def node_effect_def
        apply_update_def add_messages_def initial_state_def)
  from stream_states_well_typed [of "\<lambda>n ms. Inr ''ok''" "''Jane Doe''"] len show ?thesis by simp
qed

theorem stream_count_extractions_witness:
  "count (foldl apply_update (initial_state ''cv'')
      (map snd (take 4 (fst (stream (\<lambda>n ms. Inr ''No'') (initial_state ''cv'')))))) =
   int (length (filter (\<lambda>(n, u). n = Extractor)
      (take 4 (fst (stream (\<lambda>n ms. Inr ''No'') (initial_state ''cv''))))))"
proof -
  have "4 \<le> length (fst (stream (\<lambda>n ms. Inr ''No'') (initial_state ''cv'')))"
    by (simp add: stream_def recursion_limit_def numeral_eq_Suc run_simps Let_def node_effect_def
        apply_update_def add_messages_def initial_state_def)
  with stream_count_extractions [of "\<lambda>n ms. Inr ''No''" "''cv''"] show ?thesis by blast
qed

end
