(* ===== verification/Checkpointer.thy ===== *)
theory Checkpointer
  imports Workflow "HOL-Library.Mapping"
begin

text \<open>
  The checkpointer of the compiled graph and the thread configuration of \<open>main.py\<close>.
  \<open>create_workflow\<close> compiles the graph with \<open>checkpointer=MemorySaver()\<close>, a store of
  the latest channel values per thread id; \<open>main\<close> streams with the configuration
  \<open>{"configurable": {"thread_id": "abc"}}\<close>. LangGraph starts a run on a thread from the
  thread's latest checkpoint, writes the input into its channels through their reducers
  (\<open>add_messages\<close> for \<open>messages\<close>, last value for \<open>sender\<close> and \<open>count\<close>), runs
  the graph from \<open>START\<close>, and checkpoints the channels after every completed
  super-step; a super-step that raises leaves the previous checkpoint in place. With no
  checkpoint the channels are empty and the input alone is the start state.
\<close>

section \<open>Definitions\<close>

type_synonym memory_saver = "(string, AgentState) mapping"

text \<open>\<open>create_workflow()\<close>: the graph is fixed (\<open>Workflow\<close>); what a call creates is a fresh saver.\<close>

definition create_workflow :: memory_saver where
  "create_workflow = Mapping.empty"

definition thread_id :: string where
  "thread_id = ''abc''"

text \<open>The input dictionary as the update LangGraph writes into the channels.\<close>

definition input_update :: "AgentState \<Rightarrow> node_update" where
  "input_update input =
     \<lparr>upd_messages = map content (messages input), upd_sender = sender input,
      upd_count = count input\<rparr>"

definition input_state :: "memory_saver \<Rightarrow> string \<Rightarrow> AgentState \<Rightarrow> AgentState" where
  "input_state saver tid input =
     (case Mapping.lookup saver tid of
        None \<Rightarrow> input
      | Some s \<Rightarrow> apply_update s (input_update input))"

text \<open>\<open>app.stream(input, config)\<close> on a compiled graph with a checkpointer.\<close>

definition stream_checkpointed ::
  "memory_saver \<Rightarrow> string \<Rightarrow> llm \<Rightarrow> AgentState \<Rightarrow> event list \<times> (exc + AgentState) \<times> memory_saver" where
  "stream_checkpointed saver tid llm input =
     (let s0 = input_state saver tid input;
          (evs, r) = stream llm s0
      in (evs, r, Mapping.update tid (foldl apply_update s0 (map snd evs)) saver))"

section \<open>Lemmas\<close>

lemma stream_checkpointed_fresh:
  "stream_checkpointed create_workflow tid llm input =
     (fst (stream llm input), snd (stream llm input),
      Mapping.update tid (foldl apply_update input (map snd (fst (stream llm input)))) Mapping.empty)"
  by (simp add: stream_checkpointed_def input_state_def create_workflow_def split_beta)

end
