(* ===== verification/FileSystem.thy ===== *)
theory FileSystem
  imports Prelude
begin

text \<open>
  The part of the operating system the front end and the loaders touch: a POSIX file
  system without links or permissions, as a map from absolute paths (lists of
  components) to inodes, with the process's working directory. A path string is
  resolved the way the kernel does: relative to the working directory unless it starts
  with a slash, component by component, empty and \<open>.\<close> components staying in place,
  \<open>..\<close> going to the parent, and every component but the last required to be a
  directory (\<open>ENOENT\<close> when missing, \<open>ENOTDIR\<close> when a regular file). On top of it:
  \<open>os.path.exists\<close>, \<open>os.mkdir\<close>, \<open>os.makedirs\<close> as CPython writes it (with
  \<open>posixpath.split\<close>), and \<open>open(path, "wb")\<close> followed by one \<open>write\<close>. A system call
  that fails changes nothing; \<open>os.makedirs\<close> keeps the directories it created before
  a failure. The lemmas show that every operation keeps the file system a tree and that a
  write is read back.
\<close>

section \<open>Definitions\<close>

datatype inode = Dir | File bytes

type_synonym fpath = "string list"

record os_state =
  files :: "fpath \<rightharpoonup> inode"
  cwd :: fpath

text \<open>\<open>str.split('/')\<close>.\<close>

fun split_slash :: "string \<Rightarrow> string list" where
  "split_slash [] = [[]]"
| "split_slash (c # cs) =
     (let r = split_slash cs in if c = CHR ''/'' then [] # r else (c # hd r) # tl r)"

text \<open>\<open>str.rstrip('/')\<close>.\<close>

definition rstrip_slash :: "string \<Rightarrow> string" where
  "rstrip_slash s = rev (dropWhile (\<lambda>c. c = CHR ''/'') (rev s))"

text \<open>The kernel's walk through the directories of a path.\<close>

fun walk :: "(fpath \<rightharpoonup> inode) \<Rightarrow> fpath \<Rightarrow> string list \<Rightarrow> errno + fpath" where
  "walk fs cur [] = Inr cur"
| "walk fs cur (c # cs) =
     (if c = [] \<or> c = ''.'' then walk fs cur cs
      else if c = ''..'' then walk fs (butlast cur) cs
      else (case fs (cur @ [c]) of
              None \<Rightarrow> Inl ENOENT
            | Some (File _) \<Rightarrow> Inl ENOTDIR
            | Some Dir \<Rightarrow> walk fs (cur @ [c]) cs))"

text \<open>
  Resolution of a path string: the absolute path it names, and whether it was written
  with a trailing slash (which requires a directory).
\<close>

definition resolve :: "os_state \<Rightarrow> string \<Rightarrow> errno + fpath \<times> bool" where
  "resolve os p =
     (if p = [] then Inl ENOENT
      else
        (let q = rstrip_slash p;
             trailing = (q \<noteq> p);
             start = (if hd p = CHR ''/'' then [] else cwd os)
         in if q = [] then Inr ([], trailing)
            else
              (let comps = split_slash q in
               case walk (files os) start (butlast comps) of
                 Inl e \<Rightarrow> Inl e
               | Inr d \<Rightarrow>
                   (let c = last comps in
                    Inr (if c = ''.'' then d else if c = ''..'' then butlast d else d @ [c],
                         trailing)))))"

text \<open>\<open>os.path.exists\<close>: \<open>os.stat\<close> succeeds.\<close>

definition os_path_exists :: "os_state \<Rightarrow> string \<Rightarrow> bool" where
  "os_path_exists os p =
     (case resolve os p of
        Inl _ \<Rightarrow> False
      | Inr (t, trailing) \<Rightarrow>
          (case files os t of None \<Rightarrow> False | Some Dir \<Rightarrow> True | Some (File _) \<Rightarrow> \<not> trailing))"

text \<open>\<open>os.mkdir\<close>.\<close>

definition os_mkdir :: "os_state \<Rightarrow> string \<Rightarrow> exc + os_state" where
  "os_mkdir os p =
     (case resolve os p of
        Inl e \<Rightarrow> Inl (OSError e p)
      | Inr (t, _) \<Rightarrow>
          (case files os t of
             Some _ \<Rightarrow> Inl (OSError EEXIST p)
           | None \<Rightarrow> Inr (os\<lparr>files := (files os)(t \<mapsto> Dir)\<rparr>)))"

text \<open>\<open>with open(p, "wb") as f: f.write(data)\<close>: create or truncate, then write.\<close>

definition open_write :: "os_state \<Rightarrow> string \<Rightarrow> bytes \<Rightarrow> exc + os_state" where
  "open_write os p data =
     (case resolve os p of
        Inl e \<Rightarrow> Inl (OSError e p)
      | Inr (t, trailing) \<Rightarrow>
          (case files os t of
             Some Dir \<Rightarrow> Inl (OSError EISDIR p)
           | Some (File _) \<Rightarrow>
               if trailing then Inl (OSError ENOTDIR p)
               else Inr (os\<lparr>files := (files os)(t \<mapsto> File data)\<rparr>)
           | None \<Rightarrow>
               if trailing then Inl (OSError EISDIR p)
               else Inr (os\<lparr>files := (files os)(t \<mapsto> File data)\<rparr>)))"

text \<open>
  \<open>posixpath.split\<close>:
  \<^verbatim>\<open>
    i = p.rfind(sep) + 1
    head, tail = p[:i], p[i:]
    if head and head != sep*len(head):
        head = head.rstrip(sep)
    return head, tail
  \<close>
\<close>

definition posix_split :: "string \<Rightarrow> string \<times> string" where
  "posix_split p =
     (let i = nat (rfind CHR ''/'' p + 1); head = take i p; tail = drop i p
      in (if head \<noteq> [] \<and> (\<exists>c \<in> set head. c \<noteq> CHR ''/'') then rstrip_slash head else head, tail))"

text \<open>The result of \<open>os.mkdir\<close> as a pair of the exception raised, if any, and the state.\<close>

definition mkdir_result :: "os_state \<Rightarrow> string \<Rightarrow> exc option \<times> os_state" where
  "mkdir_result os p = (case os_mkdir os p of Inl e \<Rightarrow> (Some e, os) | Inr os' \<Rightarrow> (None, os'))"

text \<open>
  \<open>open(p, "rb").read()\<close>, the read a loader performs; it is not called by the
  program's own code and serves to state what a write leaves behind.
\<close>

definition os_read :: "os_state \<Rightarrow> string \<Rightarrow> exc + bytes" where
  "os_read os p =
     (case resolve os p of
        Inl e \<Rightarrow> Inl (OSError e p)
      | Inr (t, trailing) \<Rightarrow>
          (case files os t of
             None \<Rightarrow> Inl (OSError ENOENT p)
           | Some Dir \<Rightarrow> Inl (OSError EISDIR p)
           | Some (File b) \<Rightarrow> if trailing then Inl (OSError ENOTDIR p) else Inr b))"

text \<open>
  Well-formed file systems: the root and every proper prefix of a present path are
  directories (the map is a tree), and the working directory is a directory.
\<close>

definition tree :: "(fpath \<rightharpoonup> inode) \<Rightarrow> bool" where
  "tree fs \<longleftrightarrow> fs [] = Some Dir \<and> (\<forall>p \<in> dom fs. \<forall>i < length p. fs (take i p) = Some Dir)"

definition fs_wf :: "os_state \<Rightarrow> bool" where
  "fs_wf os \<longleftrightarrow> tree (files os) \<and> files os (cwd os) = Some Dir"

text \<open>
  \<open>os.makedirs(name)\<close> with \<open>exist_ok=False\<close>:
  \<^verbatim>\<open>
    head, tail = path.split(name)
    if not tail:
        head, tail = path.split(head)
    if head and tail and not path.exists(head):
        try:
            makedirs(head, exist_ok=exist_ok)
        except FileExistsError:
            pass
        if tail == curdir:
            return
    mkdir(name, mode)
  \<close>
  The recursion is on a strictly shorter head, which is its termination argument.
\<close>

function os_makedirs :: "os_state \<Rightarrow> string \<Rightarrow> exc option \<times> os_state" where
  "os_makedirs os name =
     (let ht = posix_split name;
          ht = (if snd ht = [] then posix_split (fst ht) else ht);
          head = fst ht; tail = snd ht
      in if head \<noteq> [] \<and> tail \<noteq> [] \<and> \<not> os_path_exists os head then
           (let (err, os') = os_makedirs os head;
                resume = (case err of None \<Rightarrow> True | Some (OSError EEXIST _) \<Rightarrow> True | Some _ \<Rightarrow> False)
            in if \<not> resume then (err, os')
               else if tail = ''.'' then (None, os')
               else mkdir_result os' name)
         else mkdir_result os name)"
  by pat_completeness auto

section \<open>Lemmas\<close>

lemma rfind_bounds: "-1 \<le> rfind c p \<and> rfind c p < int (length p)"
  by (induction p) (auto simp: Let_def)

lemma length_rstrip_slash: "length (rstrip_slash s) \<le> length s"
  using length_dropWhile_le [of _ "rev s"] by (simp add: rstrip_slash_def)

lemma posix_split_length:
  "length (fst (posix_split p)) \<le> length p"
  "snd (posix_split p) \<noteq> [] \<Longrightarrow> length (fst (posix_split p)) < length p"
proof -
  let ?i = "nat (rfind CHR ''/'' p + 1)"
  have i: "?i \<le> length p" using rfind_bounds [of "CHR ''/''" p] by linarith
  have h: "length (fst (posix_split p)) \<le> ?i"
    using length_rstrip_slash [of "take ?i p"] i by (auto simp: posix_split_def Let_def)
  with i show "length (fst (posix_split p)) \<le> length p" by linarith
  assume "snd (posix_split p) \<noteq> []"
  then have "?i < length p" by (simp add: posix_split_def Let_def)
  with h show "length (fst (posix_split p)) < length p" by linarith
qed

termination os_makedirs
proof (relation "measure (\<lambda>(os, name). length name)")
  fix os name ht ht' head tail
  assume ht: "ht = posix_split name"
    and ht': "ht' = (if snd ht = [] then posix_split (fst ht) else ht)"
    and ht'': "head = fst ht'" "tail = snd ht'"
    and c: "head \<noteq> [] \<and> tail \<noteq> [] \<and> \<not> os_path_exists os head"
  have "length head < length name"
  proof (cases "snd ht = []")
    case True
    with ht ht' ht'' c have "length head < length (fst ht)" by (simp add: posix_split_length(2))
    moreover from ht have "length (fst ht) \<le> length name" by (simp add: posix_split_length(1))
    ultimately show ?thesis by linarith
  next
    case False
    with ht ht' ht'' show ?thesis by (simp add: posix_split_length(2))
  qed
  then show "((os, head), os, name) \<in> measure (\<lambda>(os, name). length name)" by simp
qed simp

declare os_makedirs.simps [simp del]

lemmas os_eval = resolve_def os_path_exists_def os_mkdir_def open_write_def os_read_def
  rstrip_slash_def posix_split_def mkdir_result_def

lemma tree_butlast:
  assumes "tree fs" and "fs d = Some Dir"
  shows "fs (butlast d) = Some Dir"
proof (cases "d = []")
  case True
  with assms(1) show ?thesis by (simp add: tree_def)
next
  case False
  from assms(2) have "d \<in> dom fs" by auto
  with assms(1) False have "fs (take (length d - 1) d) = Some Dir" unfolding tree_def by simp
  then show ?thesis by (simp add: butlast_conv_take)
qed

lemma walk_dir:
  "tree fs \<Longrightarrow> fs cur = Some Dir \<Longrightarrow> walk fs cur cs = Inr d \<Longrightarrow> fs d = Some Dir"
proof (induction cs arbitrary: cur)
  case (Cons c cs)
  have "fs (butlast cur) = Some Dir" using Cons.prems(1,2) by (rule tree_butlast)
  with Cons show ?case by (auto split: if_splits option.splits inode.splits)
qed simp

lemma walk_update:
  "walk fs cur cs = Inr d \<Longrightarrow> fs t \<noteq> Some Dir \<Longrightarrow> walk (fs(t \<mapsto> v)) cur cs = Inr d"
proof (induction cs arbitrary: cur)
  case (Cons c cs)
  then show ?case by (auto split: if_splits option.splits inode.splits)
qed simp

lemma resolve_parent:
  assumes "fs_wf os" and "resolve os p = Inr (t, trailing)"
  shows "files os (butlast t) = Some Dir"
proof -
  have start: "files os (if hd p = CHR ''/'' then [] else cwd os) = Some Dir"
    using assms(1) by (simp add: fs_wf_def tree_def)
  have tr: "tree (files os)" using assms(1) by (simp add: fs_wf_def)
  show ?thesis
  proof (cases "rstrip_slash p = []")
    case True
    with assms(2) tr show ?thesis by (auto simp: resolve_def Let_def tree_def split: if_splits)
  next
    case False
    with assms(2) obtain d where
      w: "walk (files os) (if hd p = CHR ''/'' then [] else cwd os)
            (butlast (split_slash (rstrip_slash p))) = Inr d" and
      t: "t = (let c = last (split_slash (rstrip_slash p)) in
               if c = ''.'' then d else if c = ''..'' then butlast d else d @ [c])"
      by (auto simp: resolve_def Let_def split: if_splits sum.splits)
    have "files os d = Some Dir" by (rule walk_dir [OF tr start w])
    with tr t show ?thesis by (auto simp: Let_def tree_butlast)
  qed
qed

lemma tree_update:
  assumes "tree fs" and "t \<noteq> []" and "fs (butlast t) = Some Dir"
    and "v = Dir \<or> fs t \<noteq> Some Dir"
  shows "tree (fs(t \<mapsto> v))"
  unfolding tree_def
proof (intro conjI ballI allI impI)
  show "(fs(t \<mapsto> v)) [] = Some Dir" using assms(1,2) by (simp add: tree_def)
next
  fix p i assume p: "p \<in> dom (fs(t \<mapsto> v))" and i: "i < length p"
  show "(fs(t \<mapsto> v)) (take i p) = Some Dir"
  proof (cases "take i p = t")
    case True
    have "length (take i p) < length p" using i by simp
    with True have "p \<noteq> t" by auto
    with p have "p \<in> dom fs" by auto
    with assms(1) i True have "fs t = Some Dir" by (auto simp: tree_def)
    with assms(4) True show ?thesis by auto
  next
    case False
    have "fs (take i p) = Some Dir"
    proof (cases "p = t")
      case True
      with i have "take i p = take i (butlast t) \<and> i \<le> length (butlast t)"
        by (auto simp: butlast_conv_take min_def)
      moreover have "butlast t \<in> dom fs" using assms(3) by auto
      ultimately show ?thesis
        using assms(1,3) by (cases "i = length (butlast t)") (auto simp: tree_def)
    next
      case False
      with p have "p \<in> dom fs" by auto
      with assms(1) i show ?thesis by (auto simp: tree_def)
    qed
    with False show ?thesis by simp
  qed
qed

lemma os_mkdir_Inr:
  "os_mkdir os p = Inr os' \<longleftrightarrow>
     (\<exists>t trailing. resolve os p = Inr (t, trailing) \<and> files os t = None \<and>
        os' = os\<lparr>files := (files os)(t \<mapsto> Dir)\<rparr>)"
  by (auto simp: os_mkdir_def split: sum.splits option.splits)

lemma open_write_Inr:
  "open_write os p data = Inr os' \<longleftrightarrow>
     (\<exists>t. resolve os p = Inr (t, False) \<and> files os t \<noteq> Some Dir \<and>
        os' = os\<lparr>files := (files os)(t \<mapsto> File data)\<rparr>)"
  by (auto simp: open_write_def split: sum.splits option.splits inode.splits)

lemma fs_wf_update:
  assumes "fs_wf os" and "resolve os p = Inr (t, trailing)"
    and "files os t = None \<or> (v \<noteq> Dir \<and> files os t \<noteq> Some Dir)"
  shows "fs_wf (os\<lparr>files := (files os)(t \<mapsto> v)\<rparr>)"
proof -
  have tr: "tree (files os)" and c: "files os (cwd os) = Some Dir" and r: "files os [] = Some Dir"
    using assms(1) by (auto simp: fs_wf_def tree_def)
  have "t \<noteq> []" and "t \<noteq> cwd os" using assms(3) c r by auto
  moreover have "tree ((files os)(t \<mapsto> v))"
    using tree_update [OF tr _ resolve_parent [OF assms(1,2)]] assms(3) \<open>t \<noteq> []\<close> by auto
  ultimately show ?thesis using c by (simp add: fs_wf_def)
qed

lemma fs_wf_os_mkdir: "fs_wf os \<Longrightarrow> os_mkdir os p = Inr os' \<Longrightarrow> fs_wf os'"
  by (auto simp: os_mkdir_Inr intro: fs_wf_update)

lemma fs_wf_open_write: "fs_wf os \<Longrightarrow> open_write os p data = Inr os' \<Longrightarrow> fs_wf os'"
  by (auto simp: open_write_Inr intro: fs_wf_update)

lemma fs_wf_mkdir_result: "fs_wf os \<Longrightarrow> fs_wf (snd (mkdir_result os p))"
  by (auto simp: mkdir_result_def fs_wf_os_mkdir split: sum.split)

lemma fs_wf_os_makedirs: "fs_wf os \<Longrightarrow> fs_wf (snd (os_makedirs os name))"
proof (induction os name rule: os_makedirs.induct)
  case (1 os name)
  show ?case
    using "1.IH" [OF refl refl refl refl] "1.prems"
    by (subst os_makedirs.simps) (auto simp: Let_def fs_wf_mkdir_result split: prod.split)
qed

text \<open>Paths made of plain components: no slash, not empty, not \<open>.\<close> or \<open>..\<close>.\<close>

lemma rfind_notin: "c \<notin> set p \<Longrightarrow> rfind c p = -1"
  by (induction p) (auto simp: Let_def)

lemma rfind_append: "c \<notin> set ys \<Longrightarrow> rfind c (xs @ c # ys) = int (length xs)"
  by (induction xs) (auto simp: Let_def rfind_notin)

lemma rstrip_slash_no_slash: "CHR ''/'' \<notin> set n \<Longrightarrow> rstrip_slash n = n"
  by (cases "rev n") (auto simp: rstrip_slash_def)

lemma split_slash_no_slash: "CHR ''/'' \<notin> set n \<Longrightarrow> split_slash n = [n]"
  by (induction n) (auto simp: Let_def)

lemma split_slash_append:
  "CHR ''/'' \<notin> set a \<Longrightarrow> split_slash (a @ CHR ''/'' # b) = a # split_slash b"
  by (induction a) (auto simp: Let_def)

lemma resolve_plain:
  assumes "CHR ''/'' \<notin> set n" and "n \<noteq> []" and "n \<noteq> ''.''" and "n \<noteq> ''..''"
  shows "resolve os n = Inr (cwd os @ [n], False)"
proof -
  have "hd n \<noteq> CHR ''/''" using assms(1,2) by (cases n) auto
  with assms show ?thesis
    by (simp add: resolve_def rstrip_slash_no_slash split_slash_no_slash Let_def)
qed

lemma resolve_in_dir:
  assumes "CHR ''/'' \<notin> set d" and "d \<noteq> []" and "d \<noteq> ''.''" and "d \<noteq> ''..''"
    and "CHR ''/'' \<notin> set n" and "n \<noteq> []" and "n \<noteq> ''.''" and "n \<noteq> ''..''"
  shows "resolve os (d @ CHR ''/'' # n) =
           (case files os (cwd os @ [d]) of
              None \<Rightarrow> Inl ENOENT
            | Some (File _) \<Rightarrow> Inl ENOTDIR
            | Some Dir \<Rightarrow> Inr (cwd os @ [d, n], False))"
proof -
  have hd: "hd (d @ CHR ''/'' # n) \<noteq> CHR ''/''" using assms(1,2) by (cases d) auto
  have r: "rstrip_slash (d @ CHR ''/'' # n) = d @ CHR ''/'' # n"
    using assms(5,6) by (cases "rev n") (auto simp: rstrip_slash_def)
  have s: "split_slash (d @ CHR ''/'' # n) = [d, n]"
    using assms(1,5) by (simp add: split_slash_append split_slash_no_slash)
  show ?thesis
    using assms hd by (simp add: resolve_def r s Let_def split: option.split inode.split)
qed

lemma posix_split_plain: "CHR ''/'' \<notin> set n \<Longrightarrow> posix_split n = ([], n)"
  by (simp add: posix_split_def rfind_notin)

lemma os_makedirs_plain:
  assumes "CHR ''/'' \<notin> set n" and "n \<noteq> []" and "n \<noteq> ''.''" and "n \<noteq> ''..''"
  shows "os_makedirs os n =
           (case files os (cwd os @ [n]) of
              None \<Rightarrow> (None, os\<lparr>files := (files os)(cwd os @ [n] \<mapsto> Dir)\<rparr>)
            | Some _ \<Rightarrow> (Some (OSError EEXIST n), os))"
  using assms
  by (subst os_makedirs.simps)
     (simp add: posix_split_plain mkdir_result_def os_mkdir_def resolve_plain split: option.split)

lemma os_path_exists_plain:
  "CHR ''/'' \<notin> set n \<Longrightarrow> n \<noteq> [] \<Longrightarrow> n \<noteq> ''.'' \<Longrightarrow> n \<noteq> ''..'' \<Longrightarrow>
   os_path_exists os n \<longleftrightarrow> files os (cwd os @ [n]) \<noteq> None"
  by (simp add: os_path_exists_def resolve_plain split: option.split inode.split)

lemma resolve_update:
  assumes "resolve os p = Inr r" and "files os u \<noteq> Some Dir"
  shows "resolve (os\<lparr>files := (files os)(u \<mapsto> v)\<rparr>) p = Inr r"
  using assms walk_update [of "files os" _ _ _ u v]
  by (auto simp: resolve_def Let_def split: if_splits sum.splits)

lemma open_write_read:
  assumes "open_write os p data = Inr os'"
  shows "os_read os' p = Inr data \<and>
         (\<exists>t. resolve os p = Inr (t, False) \<and> (\<forall>u. u \<noteq> t \<longrightarrow> files os' u = files os u))"
proof -
  from assms obtain t where r: "resolve os p = Inr (t, False)" and nd: "files os t \<noteq> Some Dir"
    and os': "os' = os\<lparr>files := (files os)(t \<mapsto> File data)\<rparr>"
    by (auto simp: open_write_Inr)
  have "resolve os' p = Inr (t, False)" using resolve_update [OF r nd] os' by simp
  with os' r show ?thesis by (auto simp: os_read_def)
qed

end
