(* ===== verification/Loaders.thy ===== *)
theory Loaders
  imports FileSystem
begin

text \<open>
  \<open>parse_document\<close> of \<open>loaders.py\<close>: the file's extension, taken with
  \<open>os.path.splitext\<close> and lower-cased, selects \<open>PyMuPDFLoader\<close> for \<open>.pdf\<close> and
  \<open>Docx2txtLoader\<close> for \<open>.docx\<close>; any other extension raises \<open>ValueError\<close>. The
  loader is constructed (lines 23 and 25) before the \<open>try\<close> of lines 29--32, so an
  exception of the constructor propagates unchanged, and only a failure of
  \<open>loader.load()\<close> is re-raised as \<open>Exception("Error loading document: ...")\<close>.
  \<open>os.path.splitext\<close> is modelled as CPython's \<open>posixpath\<close> implementation
  (\<open>genericpath._splitext\<close>): the last dot after the last slash starts the extension,
  unless everything between the slash and that dot is dots (a leading-dot name such as
  \<open>.pdf\<close> has no extension). The two loader libraries are an oracle: given the loader,
  the operating-system state and the path, construction and \<open>load()\<close> together end in
  one of three outcomes: the constructor raises (for instance LangChain's
  \<open>ValueError\<close> for a path that is not a file, or \<open>ImportError\<close> when PyMuPDF is
  missing), \<open>load()\<close> raises an exception with the given text, or the pages.
\<close>

section \<open>Definitions\<close>

datatype loader_kind = PyMuPDFLoader | Docx2txtLoader

record document =
  page_content :: string

datatype loader_outcome = InitError exc | LoadError string | Loaded "document list"

type_synonym doc_loader = "loader_kind \<Rightarrow> os_state \<Rightarrow> string \<Rightarrow> loader_outcome"

text \<open>
  The loop of \<open>_splitext\<close> that skips the leading dots of the file name:
  \<^verbatim>\<open>
    filenameIndex = sepIndex + 1
    while filenameIndex < dotIndex:
        if p[filenameIndex:filenameIndex+1] != extsep:
            return p[:dotIndex], p[dotIndex:]
        filenameIndex += 1
    return p, p[:0]
  \<close>
\<close>

function splitext_loop :: "string \<Rightarrow> nat \<Rightarrow> nat \<Rightarrow> string \<times> string" where
  "splitext_loop p filenameIndex dotIndex =
     (if filenameIndex < dotIndex then
        (if p ! filenameIndex \<noteq> CHR ''.'' then (take dotIndex p, drop dotIndex p)
         else splitext_loop p (Suc filenameIndex) dotIndex)
      else (p, []))"
  by pat_completeness auto
termination
  by (relation "measure (\<lambda>(p, i, d). d - i)") auto

definition splitext :: "string \<Rightarrow> string \<times> string" where
  "splitext p =
     (let sepIndex = rfind CHR ''/'' p; dotIndex = rfind CHR ''.'' p in
      if sepIndex < dotIndex then splitext_loop p (nat (sepIndex + 1)) (nat dotIndex)
      else (p, []))"

definition parse_document :: "doc_loader \<Rightarrow> os_state \<Rightarrow> string \<Rightarrow> exc + document list" where
  "parse_document load fs file_path =
     (let extension = py_lower (snd (splitext file_path));
          loader = (if extension = ''.pdf'' then Some PyMuPDFLoader
                    else if extension = ''.docx'' then Some Docx2txtLoader
                    else None)
      in case loader of
           None \<Rightarrow> Inl (ValueError (''Unsupported file type: '' @ extension))
         | Some k \<Rightarrow>
             (case load k fs file_path of
                InitError e \<Rightarrow> Inl e
              | LoadError msg \<Rightarrow> Inl (Exception (''Error loading document: '' @ msg))
              | Loaded pages \<Rightarrow> Inr pages))"

section \<open>Lemmas\<close>

declare splitext_loop.simps [simp del]

lemma splitext_loop_eq:
  "splitext_loop p i d =
     (if \<exists>j. i \<le> j \<and> j < d \<and> p ! j \<noteq> CHR ''.'' then (take d p, drop d p) else (p, []))"
proof (induction p i d rule: splitext_loop.induct)
  case (1 p i d)
  show ?case
  proof (cases "i < d")
    case False
    then show ?thesis by (subst splitext_loop.simps) auto
  next
    case lt: True
    show ?thesis
    proof (cases "p ! i = CHR ''.''")
      case False
      with lt have "\<exists>j. i \<le> j \<and> j < d \<and> p ! j \<noteq> CHR ''.''" by blast
      with lt False show ?thesis by (subst splitext_loop.simps) simp
    next
      case True
      with lt "1.IH" have rec: "splitext_loop p (Suc i) d =
          (if \<exists>j. Suc i \<le> j \<and> j < d \<and> p ! j \<noteq> CHR ''.'' then (take d p, drop d p) else (p, []))"
        by simp
      have iff: "(\<exists>j. i \<le> j \<and> j < d \<and> p ! j \<noteq> CHR ''.'') \<longleftrightarrow>
            (\<exists>j. Suc i \<le> j \<and> j < d \<and> p ! j \<noteq> CHR ''.'')"
      proof
        assume "\<exists>j. i \<le> j \<and> j < d \<and> p ! j \<noteq> CHR ''.''"
        then obtain j where j: "i \<le> j" "j < d" "p ! j \<noteq> CHR ''.''" by blast
        with True have "j \<noteq> i" by auto
        with j show "\<exists>j. Suc i \<le> j \<and> j < d \<and> p ! j \<noteq> CHR ''.''"
          by (intro exI [of _ j]) simp
      next
        assume "\<exists>j. Suc i \<le> j \<and> j < d \<and> p ! j \<noteq> CHR ''.''"
        then show "\<exists>j. i \<le> j \<and> j < d \<and> p ! j \<noteq> CHR ''.''" by (auto dest: Suc_leD)
      qed
      have "splitext_loop p i d = splitext_loop p (Suc i) d"
        using lt True by (subst splitext_loop.simps) simp
      with rec iff show ?thesis by simp
    qed
  qed
qed
lemma splitext_dir_stem_ext:
  assumes "CHR ''/'' \<notin> set stem" and "CHR ''/'' \<notin> set r" and "CHR ''.'' \<notin> set r"
  shows "splitext (d @ CHR ''/'' # stem @ CHR ''.'' # r) =
           (if set stem \<subseteq> {CHR ''.''} then (d @ CHR ''/'' # stem @ CHR ''.'' # r, [])
            else (d @ CHR ''/'' # stem, CHR ''.'' # r))"
proof -
  let ?p = "d @ CHR ''/'' # stem @ CHR ''.'' # r"
  have s: "rfind CHR ''/'' ?p = int (length d)"
    using assms(1,2) by (intro rfind_append) auto
  have t: "rfind CHR ''.'' ?p = int (length d + 1 + length stem)"
    using rfind_append [of "CHR ''.''" r "d @ CHR ''/'' # stem"] assms(3) by simp
  have nth: "\<And>j. j < length stem \<Longrightarrow> ?p ! (Suc (length d) + j) = stem ! j"
    by (simp add: nth_append)
  have iff: "(\<exists>j. Suc (length d) \<le> j \<and> j < length d + 1 + length stem \<and> ?p ! j \<noteq> CHR ''.'') \<longleftrightarrow>
      \<not> set stem \<subseteq> {CHR ''.''}"
  proof
    assume "\<exists>j. Suc (length d) \<le> j \<and> j < length d + 1 + length stem \<and> ?p ! j \<noteq> CHR ''.''"
    then obtain j where j: "Suc (length d) \<le> j" "j < length d + 1 + length stem" "?p ! j \<noteq> CHR ''.''"
      by blast
    then have "stem ! (j - Suc (length d)) \<noteq> CHR ''.''"
      using nth [of "j - Suc (length d)"] by simp
    moreover have "j - Suc (length d) < length stem" using j by linarith
    ultimately show "\<not> set stem \<subseteq> {CHR ''.''}" by (auto dest: nth_mem)
  next
    assume "\<not> set stem \<subseteq> {CHR ''.''}"
    then obtain c where "c \<in> set stem" "c \<noteq> CHR ''.''" by blast
    then obtain i where i: "i < length stem" "stem ! i \<noteq> CHR ''.''" by (auto simp: in_set_conv_nth)
    then show "\<exists>j. Suc (length d) \<le> j \<and> j < length d + 1 + length stem \<and> ?p ! j \<noteq> CHR ''.''"
      using nth [of i] by (intro exI [of _ "Suc (length d) + i"]) simp
  qed
  show ?thesis
    using iff by (simp add: splitext_def s t splitext_loop_eq nat_add_distrib)
qed

text \<open>C15: An extension other than .pdf and .docx (compared after lower-casing) raises
  ValueError naming the lower-cased extension, and no loader is called.\<close>

theorem parse_document_unsupported:
  assumes "py_lower (snd (splitext path)) \<noteq> ''.pdf''"
    and "py_lower (snd (splitext path)) \<noteq> ''.docx''"
  shows "parse_document load fs path =
           Inl (ValueError (''Unsupported file type: '' @ py_lower (snd (splitext path))))"
  using assms by (simp add: parse_document_def)

text \<open>C16: For a supported extension in any letter case the matching loader is
  constructed on the path and loaded: its pages are returned unchanged, a failure of
  load() is re-raised as Exception with the prefix "Error loading document: ", and an
  exception of the constructor, which runs outside the try block, propagates unchanged.\<close>

theorem parse_document_dispatch:
  assumes "(py_lower (snd (splitext path)) = ''.pdf'' \<and> k = PyMuPDFLoader) \<or>
           (py_lower (snd (splitext path)) = ''.docx'' \<and> k = Docx2txtLoader)"
  shows "parse_document load fs path =
           (case load k fs path of
              InitError e \<Rightarrow> Inl e
            | LoadError msg \<Rightarrow> Inl (Exception (''Error loading document: '' @ msg))
            | Loaded pages \<Rightarrow> Inr pages)"
  using assms by (auto simp: parse_document_def)

section \<open>Witnesses\<close>

theorem parse_document_unsupported_witness:
  "parse_document (\<lambda>k fs p. Loaded [\<lparr>page_content = ''text''\<rparr>]) \<lparr>files = Map.empty, cwd = []\<rparr> ''uploaded/resume.odt'' =
     Inl (ValueError (''Unsupported file type: '' @ py_lower (snd (splitext ''uploaded/resume.odt''))))"
  by (rule parse_document_unsupported) (simp_all add: splitext_def splitext_loop.simps py_str_eval)

theorem parse_document_dispatch_witness:
  "parse_document (\<lambda>k fs p. InitError (ValueError ''File path uploaded/cv.PDF is not a valid file or url''))
     \<lparr>files = Map.empty, cwd = []\<rparr> ''uploaded/cv.PDF'' =
     Inl (ValueError ''File path uploaded/cv.PDF is not a valid file or url'')"
proof -
  have "parse_document (\<lambda>k fs p. InitError (ValueError ''File path uploaded/cv.PDF is not a valid file or url''))
     \<lparr>files = Map.empty, cwd = []\<rparr> ''uploaded/cv.PDF'' =
     (case (\<lambda>k fs p. InitError (ValueError ''File path uploaded/cv.PDF is not a valid file or url''))
        PyMuPDFLoader \<lparr>files = Map.empty, cwd = []\<rparr> ''uploaded/cv.PDF'' of
        InitError e \<Rightarrow> Inl e
      | LoadError msg \<Rightarrow> Inl (Exception (''Error loading document: '' @ msg))
      | Loaded pages \<Rightarrow> Inr pages)"
    by (rule parse_document_dispatch) (simp add: splitext_def splitext_loop.simps py_str_eval)
  then show ?thesis by simp
qed

end
