(* ===== verification/App.thy ===== *)
theory App
  imports Checkpointer Loaders
begin

text \<open>
  The Streamlit front end \<open>main.py\<close>. Streamlit runs the script, and so \<open>main\<close>,
  once per interaction (\<open>session\<close>); the operating-system state of \<open>FileSystem\<close> is
  all that survives between runs. One run draws the page header (\<open>setup_page\<close>),
  creates the upload folder if nothing of that name exists (\<open>ensure_upload_folder\<close>,
  outside the \<open>try\<close>), and shows the uploader, which lets only \<open>.pdf\<close> and
  \<open>.docx\<close> names through. For an upload of at most 5 MB it shows the button; on a
  click, inside one \<open>try\<close> whose \<open>except\<close> shows the exception text, it saves the
  upload under \<open>uploaded/\<close>, extracts its text with \<open>parse_document\<close>, runs the
  workflow and shows each yielded update in an expander. The page is the list of
  Streamlit elements the run produces, in order. The display loop consumes the stream
  lazily; \<open>stream_loop\<close> models that interleaving step by step and is proved to show
  the same page as running the stream first and then showing it, the composition
  \<open>process_upload\<close> is written with. The spinner is transient and not on the page.
\<close>

section \<open>Definitions\<close>

record uploaded_file =
  name :: string
  size :: nat
  buffer :: bytes

text \<open>
  The elements a run of the script puts on the page, in order. \<open>StException\<close> is the
  traceback box Streamlit shows for an exception the script does not catch.
\<close>

datatype ui_event =
    StPageConfig string string
  | StTitle string
  | StFileUploader string "string list"
  | StButton string
  | StError string
  | StSuccess string
  | StExpander string string
  | StException exc

definition UPLOAD_FOLDER :: string where
  "UPLOAD_FOLDER = ''uploaded''"

definition MAX_FILE_SIZE :: nat where
  "MAX_FILE_SIZE = 5 * 1024 * 1024"

definition setup_page :: "ui_event list" where
  "setup_page = [StPageConfig ''Resume Parsing System'' ''wide'', StTitle ''Resume Parsing System'']"

definition ensure_upload_folder :: "os_state \<Rightarrow> exc option \<times> os_state" where
  "ensure_upload_folder os =
     (if \<not> os_path_exists os UPLOAD_FOLDER then os_makedirs os UPLOAD_FOLDER else (None, os))"

definition validate_file_size :: "uploaded_file \<Rightarrow> bool \<times> ui_event list" where
  "validate_file_size file =
     (if size file \<le> MAX_FILE_SIZE then (True, [])
      else (False, [StError ''File size exceeds the 5MB limit. Please upload a smaller file.'']))"

text \<open>\<open>posixpath.join\<close> of two components.\<close>

definition path_join :: "string \<Rightarrow> string \<Rightarrow> string" where
  "path_join a b =
     (if b \<noteq> [] \<and> hd b = CHR ''/'' then b
      else if a = [] \<or> last a = CHR ''/'' then a @ b
      else a @ ''/'' @ b)"

definition save_uploaded_file :: "os_state \<Rightarrow> uploaded_file \<Rightarrow> exc + string \<times> os_state" where
  "save_uploaded_file os file =
     (let file_path = path_join UPLOAD_FOLDER (name file)
      in case open_write os file_path (buffer file) of
           Inl e \<Rightarrow> Inl e
         | Inr os' \<Rightarrow> Inr (file_path, os'))"

definition get_contents :: "doc_loader \<Rightarrow> os_state \<Rightarrow> string \<Rightarrow> exc + string" where
  "get_contents load os file_path =
     (case parse_document load os file_path of
        Inl e \<Rightarrow> Inl e
      | Inr documents \<Rightarrow> Inr (foldl (\<lambda>data i. data @ page_content i) '''' documents))"

text \<open>The body of the display loop for one streamed update.\<close>

definition agent_output :: "event \<Rightarrow> exc + ui_event" where
  "agent_output ev =
     (let output = snd ev; sender = upd_sender output in
      case upd_messages output of
        [] \<Rightarrow> Inl (IndexError ''list index out of range'')
      | message # _ \<Rightarrow> Inr (StExpander (py_capitalize sender @ '' Agent Output'') message))"

fun show_outputs :: "event list \<Rightarrow> ui_event list \<times> exc option" where
  "show_outputs [] = ([], None)"
| "show_outputs (ev # evs) =
     (case agent_output ev of
        Inl e \<Rightarrow> ([], Some e)
      | Inr u \<Rightarrow> (let (us, err) = show_outputs evs in (u # us, err)))"

text \<open>
  The display loop as the program runs it, interleaved with the lazy stream: each
  super-step calls a node's model and evaluates its branch, then the yielded update is
  shown before the next node runs. The trace records the model calls and the displayed
  elements in the order they happen; an exception from the model, the branch or the
  display ends the loop.
\<close>

datatype action = ModelCall node | Display ui_event

fun stream_loop :: "nat \<Rightarrow> llm \<Rightarrow> node \<Rightarrow> AgentState \<Rightarrow> action list \<times> exc option" where
  "stream_loop 0 llm n state = ([], Some recursion_error)"
| "stream_loop (Suc fuel) llm n state =
     (case call_node n llm state of
        Inl e \<Rightarrow> ([ModelCall n], Some e)
      | Inr u \<Rightarrow>
          (let state' = apply_update state u in
           case branch n state' of
             Inl e \<Rightarrow> ([ModelCall n], Some e)
           | Inr t \<Rightarrow>
               (case agent_output (n, u) of
                  Inl e \<Rightarrow> ([ModelCall n], Some e)
                | Inr shown \<Rightarrow>
                    (case t of
                       End \<Rightarrow> ([ModelCall n, Display shown], None)
                     | Goto m \<Rightarrow>
                         (let (acts, r) = stream_loop fuel llm m state'
                          in (ModelCall n # Display shown # acts, r))))))"

text \<open>Model calls and displays alternate, starting with a model call.\<close>

fun alternates :: "action list \<Rightarrow> bool" where
  "alternates [] = True"
| "alternates [ModelCall _] = True"
| "alternates (ModelCall _ # Display _ # acts) = alternates acts"
| "alternates _ = False"

fun calls :: "action list \<Rightarrow> node list" where
  "calls [] = []"
| "calls (ModelCall n # acts) = n # calls acts"
| "calls (Display _ # acts) = calls acts"

fun displayed :: "action list \<Rightarrow> ui_event list" where
  "displayed [] = []"
| "displayed (ModelCall _ # acts) = displayed acts"
| "displayed (Display ev # acts) = ev # displayed acts"

definition error_event :: "exc \<Rightarrow> ui_event" where
  "error_event e = StError (''An error occurred: '' @ exc_str e)"

text \<open>
  \<open>st.file_uploader(..., type=[...])\<close>: Streamlit normalises each allowed type to a
  lower-case extension with a leading dot and only lets through a file whose
  lower-cased name ends with one of them; any other file leaves the widget empty.
\<close>

definition uploader_type :: "string \<Rightarrow> string" where
  "uploader_type t = py_lower (if t \<noteq> [] \<and> hd t = CHR ''.'' then t else CHR ''.'' # t)"

definition file_uploader :: "string list \<Rightarrow> uploaded_file option \<Rightarrow> uploaded_file option" where
  "file_uploader types upload =
     (case upload of
        None \<Rightarrow> None
      | Some f \<Rightarrow>
          if list_ex (\<lambda>t. py_endswith (py_lower (name f)) (uploader_type t)) types then Some f
          else None)"

text \<open>
  The part of \<open>main\<close> after the uploader: the size check, the button, and on a click
  the \<open>try\<close> block with saving, text extraction, the workflow run and its display.
\<close>

definition process_upload ::
  "os_state \<Rightarrow> uploaded_file option \<Rightarrow> bool \<Rightarrow> doc_loader \<Rightarrow> llm \<Rightarrow> ui_event list \<times> os_state" where
  "process_upload os uploaded_file clicked load llm =
     (case uploaded_file of
        None \<Rightarrow> ([], os)
      | Some file \<Rightarrow>
          (let (valid, size_msgs) = validate_file_size file in
           if \<not> valid then (size_msgs, os)
           else if \<not> clicked then ([StButton ''Start Processing''], os)
           else
             (case save_uploaded_file os file of
                Inl e \<Rightarrow> ([StButton ''Start Processing'', error_event e], os)
              | Inr (file_path, os') \<Rightarrow>
                  (case get_contents load os' file_path of
                     Inl e \<Rightarrow> ([StButton ''Start Processing'', error_event e], os')
                   | Inr file_content \<Rightarrow>
                       (let (updates, result, _) =
                              stream_checkpointed create_workflow thread_id llm (initial_state file_content);
                            (shown, display_error) = show_outputs updates;
                            tail = (case display_error of
                                      Some e \<Rightarrow> [error_event e]
                                    | None \<Rightarrow>
                                        (case result of
                                           Inl e \<Rightarrow> [error_event e]
                                         | Inr _ \<Rightarrow> [StSuccess ''Resume processing complete!'']))
                        in (StButton ''Start Processing'' #
                              StSuccess ''Successfully processed uploaded resume.'' # shown @ tail,
                            os'))))))"

text \<open>
  One run of the script: \<open>upload\<close> is the file offered to the uploader (if any),
  \<open>clicked\<close> whether this run was triggered by the button.
\<close>

definition main ::
  "os_state \<Rightarrow> uploaded_file option \<Rightarrow> bool \<Rightarrow> doc_loader \<Rightarrow> llm \<Rightarrow> ui_event list \<times> os_state" where
  "main os upload clicked load llm =
     (case ensure_upload_folder os of
        (Some e, os1) \<Rightarrow> (setup_page @ [StException e], os1)
      | (None, os1) \<Rightarrow>
          (let uploaded_file = file_uploader [''pdf'', ''docx''] upload;
               (body, os2) = process_upload os1 uploaded_file clicked load llm
           in (setup_page @ StFileUploader ''Choose a resume file'' [''pdf'', ''docx''] # body, os2)))"

text \<open>
  A Streamlit session: the script, and so \<open>main()\<close>, runs again on every interaction;
  only the file system survives from one run to the next. Each interaction gives the
  offered upload, whether the button was clicked, and the behaviour of the language
  model during that run.
\<close>

fun session ::
  "os_state \<Rightarrow> doc_loader \<Rightarrow> (uploaded_file option \<times> bool \<times> llm) list \<Rightarrow> ui_event list list \<times> os_state" where
  "session os load [] = ([], os)"
| "session os load ((upload, clicked, llm) # rest) =
     (let (page, os') = main os upload clicked load llm;
          (pages, os'') = session os' load rest
      in (page # pages, os''))"

text \<open>The expander a node's update is shown in, once the update is known to be a node's.\<close>

definition expander :: "node \<Rightarrow> string \<Rightarrow> ui_event" where
  "expander n message = StExpander (py_capitalize (node_name n) @ '' Agent Output'') message"

section \<open>Lemmas\<close>

lemma show_outputs_node_effects:
  assumes "\<forall>(n, u) \<in> set evs. \<exists>r s. u = node_effect n r s"
  shows "show_outputs evs = (map (\<lambda>(n, u). expander n (hd (upd_messages u))) evs, None)"
  using assms
  by (induction evs) (auto simp: agent_output_def expander_def node_effect_def)

lemma ensure_upload_folder_eq:
  "ensure_upload_folder os =
     (case files os (cwd os @ [''uploaded'']) of
        None \<Rightarrow> (None, os\<lparr>files := (files os)(cwd os @ [''uploaded''] \<mapsto> Dir)\<rparr>)
      | Some _ \<Rightarrow> (None, os))"
  by (simp add: ensure_upload_folder_def os_path_exists_plain os_makedirs_plain UPLOAD_FOLDER_def
      split: option.split)

lemma main_eq:
  "main os upload clicked load llm =
     (setup_page @ StFileUploader ''Choose a resume file'' [''pdf'', ''docx''] #
        fst (process_upload (snd (ensure_upload_folder os)) (file_uploader [''pdf'', ''docx''] upload)
               clicked load llm),
      snd (process_upload (snd (ensure_upload_folder os)) (file_uploader [''pdf'', ''docx''] upload)
             clicked load llm))"
  by (simp add: main_def ensure_upload_folder_eq split: option.split prod.split)

lemma process_upload_clicked_eq:
  assumes "size file \<le> MAX_FILE_SIZE"
    and "save_uploaded_file os file = Inr (path, os')"
    and "get_contents load os' path = Inr file_content"
  shows "process_upload os (Some file) True load llm =
    (StButton ''Start Processing'' # StSuccess ''Successfully processed uploaded resume.'' #
       map (\<lambda>(n, u). expander n (hd (upd_messages u))) (fst (stream llm (initial_state file_content))) @
       (case snd (stream llm (initial_state file_content)) of
          Inl e \<Rightarrow> [error_event e]
        | Inr _ \<Rightarrow> [StSuccess ''Resume processing complete!'']), os')"
proof -
  have "show_outputs (fst (stream llm (initial_state file_content))) =
      (map (\<lambda>(n, u). expander n (hd (upd_messages u))) (fst (stream llm (initial_state file_content))), None)"
    by (rule show_outputs_node_effects) (simp add: stream_def run_graph_events)
  with assms show ?thesis
    by (simp add: process_upload_def validate_file_size_def stream_checkpointed_fresh split_beta
        split: sum.split)
qed

lemma path_join_plain:
  "b \<noteq> [] \<Longrightarrow> CHR ''/'' \<notin> set b \<Longrightarrow> path_join UPLOAD_FOLDER b = ''uploaded/'' @ b"
  by (cases b) (auto simp: path_join_def UPLOAD_FOLDER_def)

lemma save_uploaded_file_plain:
  assumes "CHR ''/'' \<notin> set (name file)" and "name file \<noteq> []"
    and "name file \<noteq> ''.''" and "name file \<noteq> ''..''"
  shows "save_uploaded_file os file =
     (case files os (cwd os @ [''uploaded'']) of
        None \<Rightarrow> Inl (OSError ENOENT (''uploaded/'' @ name file))
      | Some (File _) \<Rightarrow> Inl (OSError ENOTDIR (''uploaded/'' @ name file))
      | Some Dir \<Rightarrow>
          (case files os (cwd os @ [''uploaded'', name file]) of
             Some Dir \<Rightarrow> Inl (OSError EISDIR (''uploaded/'' @ name file))
           | _ \<Rightarrow> Inr (''uploaded/'' @ name file,
                      os\<lparr>files := (files os)(cwd os @ [''uploaded'', name file] \<mapsto> File (buffer file))\<rparr>)))"
proof -
  have r: "resolve os (''uploaded'' @ CHR ''/'' # name file) =
      (case files os (cwd os @ [''uploaded'']) of
         None \<Rightarrow> Inl ENOENT
       | Some (File _) \<Rightarrow> Inl ENOTDIR
       | Some Dir \<Rightarrow> Inr (cwd os @ [''uploaded'', name file], False))"
    using assms by (intro resolve_in_dir) simp_all
  show ?thesis
    using assms
    by (simp add: save_uploaded_file_def path_join_plain open_write_def r [simplified] Let_def
        split: option.split inode.split)
qed

lemma uploader_types: "uploader_type ''pdf'' = ''.pdf''" "uploader_type ''docx'' = ''.docx''"
  by (simp_all add: uploader_type_def py_str_eval)

lemma file_uploader_accepts:
  "file_uploader [''pdf'', ''docx''] (Some f) = Some f \<longleftrightarrow>
     (\<exists>stem ext. name f = stem @ ext \<and> (py_lower ext = ''.pdf'' \<or> py_lower ext = ''.docx''))"
  by (auto simp: file_uploader_def uploader_types py_endswith_py_lower)

lemma accepted_name_plain:
  assumes "file_uploader [''pdf'', ''docx''] (Some f) = Some f"
  shows "name f \<noteq> [] \<and> name f \<noteq> ''.'' \<and> name f \<noteq> ''..''"
proof -
  from assms obtain stem ext where n: "name f = stem @ ext"
    and e: "py_lower ext = ''.pdf'' \<or> py_lower ext = ''.docx''"
    by (auto simp: file_uploader_accepts)
  from e have "4 \<le> length (py_lower ext)" by (elim disjE) (simp_all del: length_py_lower)
  with n have "4 \<le> length (name f)" by simp
  then show ?thesis by auto
qed

lemma save_uploaded_file_Inr:
  "save_uploaded_file os file = Inr (p, os') \<longleftrightarrow>
     p = path_join UPLOAD_FOLDER (name file) \<and> open_write os p (buffer file) = Inr os'"
  by (auto simp: save_uploaded_file_def Let_def split: sum.split)

lemma process_upload_state:
  "snd (process_upload os uf clicked load llm) = os \<or>
   (\<exists>file p. save_uploaded_file os file = Inr (p, snd (process_upload os uf clicked load llm)))"
  by (auto simp: process_upload_def split_beta split: option.split sum.split)

lemma open_write_state:
  "open_write os p data = Inr os' \<Longrightarrow> dom (files os) \<subseteq> dom (files os') \<and> cwd os' = cwd os"
  by (auto simp: open_write_Inr)

lemma main_state:
  assumes "fs_wf os"
  shows "fs_wf (snd (main os upload clicked load llm)) \<and>
         cwd (snd (main os upload clicked load llm)) = cwd os \<and>
         dom (files os) \<subseteq> dom (files (snd (main os upload clicked load llm))) \<and>
         cwd os @ [''uploaded''] \<in> dom (files (snd (main os upload clicked load llm)))"
proof -
  let ?os1 = "snd (ensure_upload_folder os)"
  let ?r = "process_upload ?os1 (file_uploader [''pdf'', ''docx''] upload) clicked load llm"
  have e: "fs_wf ?os1 \<and> cwd ?os1 = cwd os \<and> dom (files os) \<subseteq> dom (files ?os1) \<and>
      cwd os @ [''uploaded''] \<in> dom (files ?os1)"
  proof (intro conjI)
    show "fs_wf ?os1"
      using assms fs_wf_os_makedirs [of os UPLOAD_FOLDER] by (simp add: ensure_upload_folder_def)
  qed (auto simp: ensure_upload_folder_eq split: option.splits)
  have "fs_wf (snd ?r) \<and> cwd (snd ?r) = cwd ?os1 \<and> dom (files ?os1) \<subseteq> dom (files (snd ?r))"
    using process_upload_state [of ?os1 "file_uploader [''pdf'', ''docx''] upload" clicked load llm]
  proof
    assume "snd ?r = ?os1"
    with e show ?thesis by simp
  next
    assume "\<exists>file p. save_uploaded_file ?os1 file = Inr (p, snd ?r)"
    then obtain f p where "save_uploaded_file ?os1 f = Inr (p, snd ?r)" by blast
    then have w: "open_write ?os1 p (buffer f) = Inr (snd ?r)" using save_uploaded_file_Inr by blast
    from e have "fs_wf ?os1" by blast
    with w show ?thesis using open_write_state [OF w] by (blast intro: fs_wf_open_write)
  qed
  then have r: "fs_wf (snd ?r)" "cwd (snd ?r) = cwd ?os1" "dom (files ?os1) \<subseteq> dom (files (snd ?r))"
    by simp_all
  from e have e1: "cwd ?os1 = cwd os" "dom (files os) \<subseteq> dom (files ?os1)"
    "cwd os @ [''uploaded''] \<in> dom (files ?os1)" by simp_all
  have "dom (files os) \<subseteq> dom (files (snd ?r))" using e1(2) r(3) by (rule subset_trans)
  moreover have "cwd os @ [''uploaded''] \<in> dom (files (snd ?r))" using r(3) e1(3) by blast
  ultimately show ?thesis unfolding main_eq snd_conv using r(1,2) e1(1) by simp
qed

lemma py_lower_ext_shape:
  assumes "py_lower ext = CHR ''.'' # r" and "CHR ''.'' \<notin> set r"
  shows "\<exists>r'. ext = CHR ''.'' # r' \<and> CHR ''.'' \<notin> set r'"
proof (cases ext)
  case Nil
  with assms show ?thesis by simp
next
  case (Cons c r')
  with assms have c: "py_lower_char c = CHR ''.''" and r: "py_lower r' = r" by simp_all
  have "c = CHR ''.''" using c py_lower_char_fixed [of "CHR ''.''" c] by simp
  moreover have "CHR ''.'' \<notin> set r'"
  proof
    assume "CHR ''.'' \<in> set r'"
    then have "py_lower_char (CHR ''.'') \<in> set r" using r by (auto simp: py_lower_def)
    with assms(2) show False by (simp add: py_str_eval)
  qed
  ultimately show ?thesis using Cons by blast
qed

lemma session_state:
  "fs_wf os \<Longrightarrow>
   fs_wf (snd (session os load xs)) \<and> cwd (snd (session os load xs)) = cwd os \<and>
   dom (files os) \<subseteq> dom (files (snd (session os load xs)))"
proof (induction xs arbitrary: os)
  case (Cons x xs)
  obtain upload clicked llm where x: "x = (upload, clicked, llm)" by (cases x) auto
  let ?os1 = "snd (main os upload clicked load llm)"
  have m: "fs_wf ?os1" "cwd ?os1 = cwd os" "dom (files os) \<subseteq> dom (files ?os1)"
    using main_state [OF Cons.prems, of upload clicked load llm] by simp_all
  with Cons.IH [OF m(1)] show ?case by (auto simp: x split_beta)
qed simp

section \<open>Properties of the front end\<close>

text \<open>C21: The size limit as the page shows it: for an upload the uploader accepts,
  before any click, the page offers the button exactly when the file has at most
  5242880 bytes (5 MB, the boundary included) and shows the size error otherwise.\<close>

theorem main_size_boundary:
  assumes "file_uploader [''pdf'', ''docx''] (Some file) = Some file"
  shows "fst (main os (Some file) False load llm) =
           setup_page @ [StFileUploader ''Choose a resume file'' [''pdf'', ''docx''],
             (if size file \<le> 5242880 then StButton ''Start Processing''
              else StError ''File size exceeds the 5MB limit. Please upload a smaller file.'')]"
  using assms by (simp add: main_eq process_upload_def validate_file_size_def MAX_FILE_SIZE_def)

text \<open>C29: ensure_upload_folder never raises: it creates the directory uploaded in the
  working directory when nothing of that name exists, leaves an existing entry of that
  name alone even when it is a regular file, touches no other path, and a second call
  changes nothing.\<close>

theorem ensure_upload_folder_spec:
  "fst (ensure_upload_folder os) = None \<and>
   files (snd (ensure_upload_folder os)) (cwd os @ [''uploaded'']) =
     (case files os (cwd os @ [''uploaded'']) of None \<Rightarrow> Some Dir | Some i \<Rightarrow> Some i) \<and>
   (\<forall>u. u \<noteq> cwd os @ [''uploaded''] \<longrightarrow> files (snd (ensure_upload_folder os)) u = files os u) \<and>
   cwd (snd (ensure_upload_folder os)) = cwd os \<and>
   ensure_upload_folder (snd (ensure_upload_folder os)) = (None, snd (ensure_upload_folder os))"
  by (simp add: ensure_upload_folder_eq split: option.split)

text \<open>C14: An accepted upload larger than 5 MB shows only the size error under the
  uploader: no button, nothing saved, no document parsed and no model called, whether or
  not a click is reported.\<close>

theorem main_rejects_oversized:
  assumes "5242880 < size file" and "file_uploader [''pdf'', ''docx''] (Some file) = Some file"
  shows "main os (Some file) clicked load llm =
    (setup_page @ [StFileUploader ''Choose a resume file'' [''pdf'', ''docx''],
                   StError ''File size exceeds the 5MB limit. Please upload a smaller file.''],
     snd (ensure_upload_folder os))"
  using assms by (simp add: main_eq process_upload_def validate_file_size_def MAX_FILE_SIZE_def)

text \<open>C22: Round trip of saving an upload: reading the returned path afterwards gives the
  uploaded bytes, at most one entry of the file system changed, and the path is uploaded/
  followed by the file name, except that an absolute file name replaces the upload
  folder.\<close>

theorem save_uploaded_file_roundtrip:
  assumes "save_uploaded_file os file = Inr (file_path, os')"
  shows "os_read os' file_path = Inr (buffer file) \<and>
         file_path = (if name file \<noteq> [] \<and> hd (name file) = CHR ''/'' then name file
                      else ''uploaded/'' @ name file) \<and>
         (\<exists>t. \<forall>u. u \<noteq> t \<longrightarrow> files os' u = files os u)"
proof -
  have "file_path = path_join UPLOAD_FOLDER (name file) \<and>
      open_write os file_path (buffer file) = Inr os'"
    using assms save_uploaded_file_Inr by blast
  then have p: "file_path = path_join UPLOAD_FOLDER (name file)"
    and w: "open_write os file_path (buffer file) = Inr os'" by blast+
  from open_write_read [OF w] p show ?thesis by (auto simp: path_join_def UPLOAD_FOLDER_def)
qed

text \<open>C25: If a regular file named uploaded is in the working directory, the existence
  check lets it stand and every click on an accepted upload with a plain name ends in the
  error NotADirectoryError for uploaded/name, shown on the page; nothing is written.\<close>

theorem main_upload_folder_is_file:
  assumes "files os (cwd os @ [''uploaded'']) = Some (File b)"
    and "size file \<le> MAX_FILE_SIZE" and "file_uploader [''pdf'', ''docx''] (Some file) = Some file"
    and "CHR ''/'' \<notin> set (name file)"
  shows "main os (Some file) True load llm =
    (setup_page @ [StFileUploader ''Choose a resume file'' [''pdf'', ''docx''],
                   StButton ''Start Processing'',
                   StError (''An error occurred: [Errno 20] Not a directory: '' @
                            py_repr (''uploaded/'' @ name file))], os)"
proof -
  have s: "save_uploaded_file os file = Inl (OSError ENOTDIR (''uploaded/'' @ name file))"
    using save_uploaded_file_plain [of "file" os] accepted_name_plain [OF assms(3)] assms(1,4) by simp
  have e: "ensure_upload_folder os = (None, os)" using assms(1) by (simp add: ensure_upload_folder_eq)
  show ?thesis
    using assms(2,3) s e by (simp add: main_eq process_upload_def validate_file_size_def error_event_def)
qed

text \<open>C13: When a model call fails during the run, the page shows the success message of
  the upload, then the output of every agent that finished before the failure, then the
  error text: the results of the aborted run stay displayed.\<close>

theorem main_partial_output_on_failure:
  assumes "size file \<le> MAX_FILE_SIZE" and "file_uploader [''pdf'', ''docx''] (Some file) = Some file"
    and "save_uploaded_file (snd (ensure_upload_folder os)) file = Inr (path, os')"
    and "get_contents load os' path = Inr file_content"
    and "snd (stream llm (initial_state file_content)) = Inl e"
  shows "fst (main os (Some file) True load llm) =
    setup_page @ StFileUploader ''Choose a resume file'' [''pdf'', ''docx''] #
      StButton ''Start Processing'' # StSuccess ''Successfully processed uploaded resume.'' #
      map (\<lambda>(n, u). expander n (hd (upd_messages u))) (fst (stream llm (initial_state file_content))) @
      [StError (''An error occurred: '' @ exc_str e)]"
  using process_upload_clicked_eq [OF assms(1,3,4), of llm] assms(2,5)
  by (simp add: main_eq error_event_def)

text \<open>C24: Across a Streamlit session of any number of reruns, the file system stays a
  well-formed tree with the same working directory, and after the first run the upload
  folder exists.\<close>

theorem session_invariant:
  assumes "fs_wf os"
  shows "fs_wf (snd (session os load xs)) \<and> cwd (snd (session os load xs)) = cwd os \<and>
         (xs \<noteq> [] \<longrightarrow> files (snd (session os load xs)) (cwd os @ [''uploaded'']) \<noteq> None)"
proof (cases xs)
  case Nil
  with assms show ?thesis by simp
next
  case (Cons x rest)
  obtain upload clicked llm where x: "x = (upload, clicked, llm)" by (cases x) auto
  let ?os1 = "snd (main os upload clicked load llm)"
  have m: "fs_wf ?os1" "cwd ?os1 = cwd os" "cwd os @ [''uploaded''] \<in> dom (files ?os1)"
    using main_state [OF assms, of upload clicked load llm] by simp_all
  with session_state [OF m(1), of load rest] show ?thesis
    by (auto simp: Cons x split_beta)
qed

text \<open>C26: An upload the uploader lets through (its lower-cased name ends with .pdf or
  .docx) and whose name has no slash reaches the loader for that extension (constructor
  errors unchanged, load errors wrapped), except when everything before the extension is
  dots: then os.path.splitext finds no extension and parse_document raises ValueError with
  an empty extension.\<close>

theorem accepted_upload_parse:
  assumes "file_uploader [''pdf'', ''docx''] (Some f) = Some f" and "CHR ''/'' \<notin> set (name f)"
  shows "\<exists>stem ext k. name f = stem @ ext \<and>
           (py_lower ext = ''.pdf'' \<and> k = PyMuPDFLoader \<or> py_lower ext = ''.docx'' \<and> k = Docx2txtLoader) \<and>
           parse_document load os (path_join UPLOAD_FOLDER (name f)) =
             (if set stem \<subseteq> {CHR ''.''} then Inl (ValueError ''Unsupported file type: '')
              else (case load k os (path_join UPLOAD_FOLDER (name f)) of
                      InitError e \<Rightarrow> Inl e
                    | LoadError msg \<Rightarrow> Inl (Exception (''Error loading document: '' @ msg))
                    | Loaded pages \<Rightarrow> Inr pages))"
proof -
  from assms(1) obtain stem ext where n: "name f = stem @ ext"
    and e: "py_lower ext = ''.pdf'' \<or> py_lower ext = ''.docx''"
    by (auto simp: file_uploader_accepts)
  from e obtain r where "py_lower ext = CHR ''.'' # r" and "CHR ''.'' \<notin> set r" by auto
  then obtain r' where r': "ext = CHR ''.'' # r'" "CHR ''.'' \<notin> set r'" by (blast dest: py_lower_ext_shape)
  have ns: "name f \<noteq> []" using accepted_name_plain [OF assms(1)] by simp
  let ?p = "''uploaded'' @ CHR ''/'' # stem @ CHR ''.'' # r'"
  have p: "path_join UPLOAD_FOLDER (name f) = ?p"
    using path_join_plain [OF ns assms(2)] n r' by simp
  have sl: "CHR ''/'' \<notin> set stem" "CHR ''/'' \<notin> set r'" using assms(2) n r' by auto
  have sp: "splitext ?p = (if set stem \<subseteq> {CHR ''.''} then (?p, []) else (''uploaded'' @ CHR ''/'' # stem, ext))"
    using splitext_dir_stem_ext [OF sl r'(2), of "''uploaded''"] r'(1) by simp
  from e obtain k where
    k: "py_lower ext = ''.pdf'' \<and> k = PyMuPDFLoader \<or> py_lower ext = ''.docx'' \<and> k = Docx2txtLoader"
    by blast
  have "parse_document load os ?p =
      (if set stem \<subseteq> {CHR ''.''} then Inl (ValueError ''Unsupported file type: '')
       else (case load k os ?p of
               InitError e \<Rightarrow> Inl e
             | LoadError msg \<Rightarrow> Inl (Exception (''Error loading document: '' @ msg))
             | Loaded pages \<Rightarrow> Inr pages))"
    using k by (elim disjE) (simp_all add: parse_document_def sp [simplified] Let_def)
  with n k p show ?thesis by (intro exI [of _ stem] exI [of _ ext] exI [of _ k]) simp
qed

lemma branch_after_call:
  "call_node n llm s = Inr u \<Longrightarrow>
   branch n (apply_update s u) = Inr (if stop_condition (apply_update s u) then End else Goto (successor n))"
  by (rule branch_after_node) (auto simp: call_node_Inr_iff)

text \<open>C28: The lazy stream consumed by the display loop shows the same elements and ends with
  the same exception as running the whole stream first and then showing its updates, the
  composition process_upload is written with; and each element is displayed right after
  the model call of its agent, before the next one; the models are called in the order
  of the schedule from the first node.\<close>

theorem stream_loop_equiv:
  "displayed (fst (stream_loop f llm n s)) = fst (show_outputs (fst (run_graph f llm n s))) \<and>
   snd (stream_loop f llm n s) =
     (case snd (show_outputs (fst (run_graph f llm n s))) of
        Some e \<Rightarrow> Some e
      | None \<Rightarrow> (case snd (run_graph f llm n s) of Inl e \<Rightarrow> Some e | Inr _ \<Rightarrow> None)) \<and>
   alternates (fst (stream_loop f llm n s)) \<and>
   calls (fst (stream_loop f llm n s)) = sched n (length (calls (fst (stream_loop f llm n s))))"
proof (induction f arbitrary: n s)
  case 0
  then show ?case by simp
next
  case (Suc f)
  show ?case
  proof (cases "call_node n llm s")
    case (Inl e)
    then show ?thesis by (simp add: run_graph.simps(2))
  next
    case (Inr u)
    show ?thesis
    proof (cases "branch n (apply_update s u)")
      case (Inl e)
      with Inr show ?thesis by (simp add: run_graph.simps(2))
    next
      case br: (Inr t)
      have t: "t = (if stop_condition (apply_update s u) then End else Goto (successor n))"
        using branch_after_call [OF Inr] br by simp
      show ?thesis
      proof (cases "agent_output (n, u)")
        case (Inl e)
        with Inr br t show ?thesis
          by (cases t) (simp_all add: run_graph.simps(2) split_beta Let_def split: option.split)
      next
        case ao: (Inr shown)
        with Inr br t Suc.IH show ?thesis
          by (cases t) (simp_all add: run_graph.simps(2) split_beta Let_def split: option.split)
      qed
    qed
  qed
qed

section \<open>Witnesses\<close>


theorem ensure_upload_folder_spec_witness:
  "fst (ensure_upload_folder \<lparr>files = Map.empty([] \<mapsto> Dir, [''app''] \<mapsto> Dir), cwd = [''app'']\<rparr>) = None \<and>
   files (snd (ensure_upload_folder \<lparr>files = Map.empty([] \<mapsto> Dir, [''app''] \<mapsto> Dir), cwd = [''app'']\<rparr>))
     [''app'', ''uploaded''] = Some Dir \<and>
   files (snd (ensure_upload_folder \<lparr>files = Map.empty([] \<mapsto> Dir, [''app''] \<mapsto> Dir), cwd = [''app'']\<rparr>))
     [''app''] = Some Dir"
  using ensure_upload_folder_spec [of "\<lparr>files = Map.empty([] \<mapsto> Dir, [''app''] \<mapsto> Dir), cwd = [''app'']\<rparr>"]
  by simp

theorem main_rejects_oversized_witness:
  "main \<lparr>files = Map.empty([] \<mapsto> Dir, [''app''] \<mapsto> Dir), cwd = [''app'']\<rparr>
     (Some \<lparr>name = ''cv.pdf'', size = 6000000, buffer = []\<rparr>) True
     (\<lambda>k os p. Loaded []) (\<lambda>n ms. Inr ''Yes'') =
   (setup_page @ [StFileUploader ''Choose a resume file'' [''pdf'', ''docx''],
                  StError ''File size exceeds the 5MB limit. Please upload a smaller file.''],
    snd (ensure_upload_folder \<lparr>files = Map.empty([] \<mapsto> Dir, [''app''] \<mapsto> Dir), cwd = [''app'']\<rparr>))"
  by (rule main_rejects_oversized)
     (simp_all add: file_uploader_def uploader_type_def py_endswith_def py_str_eval)

theorem main_upload_folder_is_file_witness:
  "main \<lparr>files = Map.empty([] \<mapsto> Dir, [''app''] \<mapsto> Dir, [''app'', ''uploaded''] \<mapsto> File []), cwd = [''app'']\<rparr>
     (Some \<lparr>name = ''cv.pdf'', size = 2, buffer = [0x25, 0x50]\<rparr>) True
     (\<lambda>k os p. Loaded []) (\<lambda>n ms. Inr ''Yes'') =
   (setup_page @ [StFileUploader ''Choose a resume file'' [''pdf'', ''docx''],
                  StButton ''Start Processing'',
                  StError (''An error occurred: [Errno 20] Not a directory: '' @ py_repr (''uploaded/'' @ ''cv.pdf''))],
    \<lparr>files = Map.empty([] \<mapsto> Dir, [''app''] \<mapsto> Dir, [''app'', ''uploaded''] \<mapsto> File []), cwd = [''app'']\<rparr>)"
proof -
  let ?os = "\<lparr>files = Map.empty([] \<mapsto> Dir, [''app''] \<mapsto> Dir, [''app'', ''uploaded''] \<mapsto> File []), cwd = [''app'']\<rparr>"
  let ?f = "\<lparr>name = ''cv.pdf'', size = 2, buffer = [0x25, 0x50]\<rparr>"
  have h1: "files ?os (cwd ?os @ [''uploaded'']) = Some (File [])" by simp
  have h2: "uploaded_file.size ?f \<le> MAX_FILE_SIZE" by (simp add: MAX_FILE_SIZE_def)
  have h3: "file_uploader [''pdf'', ''docx''] (Some ?f) = Some ?f"
    by (simp add: file_uploader_def uploader_type_def py_endswith_def py_str_eval)
  have h4: "CHR ''/'' \<notin> set (name ?f)" by simp
  from main_upload_folder_is_file [OF h1 h2 h3 h4, of "\<lambda>k os p. Loaded []" "\<lambda>n ms. Inr ''Yes''"]
  show ?thesis by simp
qed

theorem session_invariant_witness:
  "fs_wf (snd (session \<lparr>files = Map.empty([] \<mapsto> Dir, [''app''] \<mapsto> Dir), cwd = [''app'']\<rparr>
      (\<lambda>k os p. Loaded []) [(None, False, \<lambda>n ms. Inr ''Yes'')])) \<and>
   files (snd (session \<lparr>files = Map.empty([] \<mapsto> Dir, [''app''] \<mapsto> Dir), cwd = [''app'']\<rparr>
      (\<lambda>k os p. Loaded []) [(None, False, \<lambda>n ms. Inr ''Yes'')])) [''app'', ''uploaded''] \<noteq> None"
proof -
  have wf: "fs_wf \<lparr>files = Map.empty([] \<mapsto> Dir, [''app''] \<mapsto> Dir), cwd = [''app'']\<rparr>"
    by (simp add: fs_wf_def tree_def)
  show ?thesis
    using session_invariant [OF wf, of "\<lambda>k os p. Loaded []" "[(None, False, \<lambda>n ms. Inr ''Yes'')]"] by simp
qed

theorem accepted_upload_parse_witness:
  "\<exists>stem ext k. ''..PDF'' = stem @ ext \<and>
     (py_lower ext = ''.pdf'' \<and> k = PyMuPDFLoader \<or> py_lower ext = ''.docx'' \<and> k = Docx2txtLoader) \<and>
     parse_document (\<lambda>k os p. Loaded []) \<lparr>files = Map.empty, cwd = []\<rparr> (path_join UPLOAD_FOLDER ''..PDF'') =
       (if set stem \<subseteq> {CHR ''.''} then Inl (ValueError ''Unsupported file type: '')
        else (case (\<lambda>k os p. Loaded []) k \<lparr>files = Map.empty, cwd = []\<rparr> (path_join UPLOAD_FOLDER ''..PDF'') of
                InitError e \<Rightarrow> Inl e
              | LoadError msg \<Rightarrow> Inl (Exception (''Error loading document: '' @ msg))
              | Loaded pages \<Rightarrow> Inr pages))"
proof -
  have h1: "file_uploader [''pdf'', ''docx''] (Some \<lparr>name = ''..PDF'', size = 0, buffer = []\<rparr>) =
      Some \<lparr>name = ''..PDF'', size = 0, buffer = []\<rparr>"
    by (simp add: file_uploader_def uploader_type_def py_endswith_def py_str_eval)
  have h2: "CHR ''/'' \<notin> set (name \<lparr>name = ''..PDF'', size = 0, buffer = []\<rparr>)" by simp
  from accepted_upload_parse [OF h1 h2, of "\<lambda>k os p. Loaded []" "\<lparr>files = Map.empty, cwd = []\<rparr>"]
  show ?thesis by simp
qed

theorem save_uploaded_file_roundtrip_witness:
  "os_read \<lparr>files = Map.empty([] \<mapsto> Dir, [''app''] \<mapsto> Dir, [''app'', ''uploaded''] \<mapsto> Dir,
       [''app'', ''uploaded'', ''cv.pdf''] \<mapsto> File [0x25, 0x50]), cwd = [''app'']\<rparr> ''uploaded/cv.pdf'' =
     Inr [0x25, 0x50]"
proof -
  have s: "save_uploaded_file
      \<lparr>files = Map.empty([] \<mapsto> Dir, [''app''] \<mapsto> Dir, [''app'', ''uploaded''] \<mapsto> Dir), cwd = [''app'']\<rparr>
      \<lparr>name = ''cv.pdf'', size = 2, buffer = [0x25, 0x50]\<rparr> =
    Inr (''uploaded/cv.pdf'',
      \<lparr>files = Map.empty([] \<mapsto> Dir, [''app''] \<mapsto> Dir, [''app'', ''uploaded''] \<mapsto> Dir,
         [''app'', ''uploaded'', ''cv.pdf''] \<mapsto> File [0x25, 0x50]), cwd = [''app'']\<rparr>)"
    by (simp add: save_uploaded_file_plain)
  from save_uploaded_file_roundtrip [OF s] show ?thesis by simp
qed

theorem main_partial_output_on_failure_witness:
  "fst (main \<lparr>files = Map.empty([] \<mapsto> Dir, [''app''] \<mapsto> Dir), cwd = [''app'']\<rparr>
      (Some \<lparr>name = ''cv.pdf'', size = 2, buffer = [0x25, 0x50]\<rparr>) True
      (\<lambda>k os p. Loaded [\<lparr>page_content = ''Jane Doe''\<rparr>])
      (\<lambda>n ms. if n = Extractor then Inl (ModelCallError ''Request timed out.'') else Inr ''Jane Doe'')) =
   setup_page @ StFileUploader ''Choose a resume file'' [''pdf'', ''docx''] #
     StButton ''Start Processing'' # StSuccess ''Successfully processed uploaded resume.'' #
     map (\<lambda>(n, u). expander n (hd (upd_messages u)))
       (fst (stream (\<lambda>n ms. if n = Extractor then Inl (ModelCallError ''Request timed out.'') else Inr ''Jane Doe'')
         (initial_state ''Jane Doe''))) @
     [StError (''An error occurred: '' @ exc_str (ModelCallError ''Request timed out.''))]"
proof (rule main_partial_output_on_failure)
  show "uploaded_file.size \<lparr>name = ''cv.pdf'', size = 2, buffer = [0x25, 0x50]\<rparr> \<le> MAX_FILE_SIZE"
    by (simp add: MAX_FILE_SIZE_def)
  show "file_uploader [''pdf'', ''docx''] (Some \<lparr>name = ''cv.pdf'', size = 2, buffer = [0x25, 0x50]\<rparr>) =
      Some \<lparr>name = ''cv.pdf'', size = 2, buffer = [0x25, 0x50]\<rparr>"
    by (simp add: file_uploader_def uploader_type_def py_endswith_def py_str_eval)
  show "save_uploaded_file (snd (ensure_upload_folder \<lparr>files = Map.empty([] \<mapsto> Dir, [''app''] \<mapsto> Dir), cwd = [''app'']\<rparr>))
      \<lparr>name = ''cv.pdf'', size = 2, buffer = [0x25, 0x50]\<rparr> =
    Inr (''uploaded/cv.pdf'',
      \<lparr>files = Map.empty([] \<mapsto> Dir, [''app''] \<mapsto> Dir, [''app'', ''uploaded''] \<mapsto> Dir,
         [''app'', ''uploaded'', ''cv.pdf''] \<mapsto> File [0x25, 0x50]), cwd = [''app'']\<rparr>)"
    by (simp add: ensure_upload_folder_eq save_uploaded_file_plain)
  show "get_contents (\<lambda>k os p. Loaded [\<lparr>page_content = ''Jane Doe''\<rparr>])
      \<lparr>files = Map.empty([] \<mapsto> Dir, [''app''] \<mapsto> Dir, [''app'', ''uploaded''] \<mapsto> Dir,
         [''app'', ''uploaded'', ''cv.pdf''] \<mapsto> File [0x25, 0x50]), cwd = [''app'']\<rparr>
      ''uploaded/cv.pdf'' = Inr ''Jane Doe''"
    by (simp add: get_contents_def parse_document_def splitext_def splitext_loop.simps py_str_eval)
  show "snd (stream (\<lambda>n ms. if n = Extractor then Inl (ModelCallError ''Request timed out.'') else Inr ''Jane Doe'')
      (initial_state ''Jane Doe'')) = Inl (ModelCallError ''Request timed out.'')"
    by (simp add: stream_def recursion_limit_def numeral_eq_Suc run_simps Let_def node_effect_def
        apply_update_def add_messages_def initial_state_def)
qed

theorem main_size_boundary_witness:
  "fst (main \<lparr>files = Map.empty([] \<mapsto> Dir, [''app''] \<mapsto> Dir), cwd = [''app'']\<rparr>
      (Some \<lparr>name = ''cv.pdf'', size = 5242880, buffer = []\<rparr>) False
      (\<lambda>k os p. Loaded []) (\<lambda>n ms. Inr ''Yes'')) =
   setup_page @ [StFileUploader ''Choose a resume file'' [''pdf'', ''docx''], StButton ''Start Processing'']"
proof -
  have h: "file_uploader [''pdf'', ''docx''] (Some \<lparr>name = ''cv.pdf'', size = 5242880, buffer = []\<rparr>) =
      Some \<lparr>name = ''cv.pdf'', size = 5242880, buffer = []\<rparr>"
    by (simp add: file_uploader_def uploader_type_def py_endswith_def py_str_eval)
  from main_size_boundary [OF h, of "\<lparr>files = Map.empty([] \<mapsto> Dir, [''app''] \<mapsto> Dir), cwd = [''app'']\<rparr>"
      "\<lambda>k os p. Loaded []" "\<lambda>n ms. Inr ''Yes''"]
  show ?thesis by simp
qed

end
