(* ===== verification/MessageReducer.thy ===== *)
theory MessageReducer
  imports AgentState
begin

text \<open>
  LangGraph's \<open>add_messages\<close> reducer, the annotation of the \<open>messages\<close> channel of
  \<open>AgentState\<close> (\<open>workflow.py\<close>, line 13), with message ids. A LangChain message carries
  an optional \<open>id\<close>; the reducer converts a plain string to a \<open>HumanMessage\<close> without
  id, gives every message without id a fresh one (\<open>uuid4\<close>, modelled as a counter
  above every id in use), and then merges: a message whose id is already present
  replaces that message in place, any other message is appended.
  \<^verbatim>\<open>
    for m in left:  if m.id is None: m.id = str(uuid.uuid4())
    for m in right: if m.id is None: m.id = str(uuid.uuid4())
    merged = left.copy()
    merged_by_id = {m.id: i for i, m in enumerate(merged)}
    for m in right:
        if (existing_idx := merged_by_id.get(m.id)) is not None:
            merged[existing_idx] = m
        else:
            merged_by_id[m.id] = len(merged)
            merged.append(m)
  \<close>
  (\<open>RemoveMessage\<close>, the only other branch, is never produced by the program.) The
  refinement theorem shows that on the updates the nodes return the reducer is the
  append of \<open>AgentState.add_messages\<close>, which the rest of the development uses.
\<close>

section \<open>Definitions\<close>

record base_message =
  msg_id :: "nat option"
  msg_content :: string

text \<open>\<open>convert_to_messages\<close> on a plain string.\<close>

definition plain_message :: "string \<Rightarrow> base_message" where
  "plain_message s = \<lparr>msg_id = None, msg_content = s\<rparr>"

text \<open>The id assignment; the counter is the next fresh id.\<close>

fun assign_ids :: "nat \<Rightarrow> base_message list \<Rightarrow> base_message list \<times> nat" where
  "assign_ids n [] = ([], n)"
| "assign_ids n (m # ms) =
     (case msg_id m of
        None \<Rightarrow> (let (ms', n') = assign_ids (Suc n) ms in (m\<lparr>msg_id := Some n\<rparr> # ms', n'))
      | Some _ \<Rightarrow> (let (ms', n') = assign_ids n ms in (m # ms', n')))"

text \<open>\<open>merged_by_id = {m.id: i for i, m in enumerate(merged)}\<close>.\<close>

definition index_by_id :: "base_message list \<Rightarrow> nat option \<rightharpoonup> nat" where
  "index_by_id ms = foldl (\<lambda>d (i, m). d(msg_id m \<mapsto> i)) Map.empty (enumerate 0 ms)"

fun merge_messages ::
  "base_message list \<Rightarrow> (nat option \<rightharpoonup> nat) \<Rightarrow> base_message list \<Rightarrow> base_message list" where
  "merge_messages merged by_id [] = merged"
| "merge_messages merged by_id (m # rest) =
     (case by_id (msg_id m) of
        Some i \<Rightarrow> merge_messages (merged[i := m]) by_id rest
      | None \<Rightarrow> merge_messages (merged @ [m]) (by_id(msg_id m \<mapsto> length merged)) rest)"

definition add_messages_ids :: "nat \<Rightarrow> base_message list \<Rightarrow> base_message list \<Rightarrow> base_message list \<times> nat" where
  "add_messages_ids n left right =
     (let (left', n1) = assign_ids n left;
          (right', n2) = assign_ids n1 right
      in (merge_messages left' (index_by_id left') right', n2))"

text \<open>
  The state of the channel between two reductions: every message has an id, the ids
  are distinct, and the counter is above all of them.
\<close>

definition ids_wf :: "nat \<Rightarrow> base_message list \<Rightarrow> bool" where
  "ids_wf n ms \<longleftrightarrow> distinct (map msg_id ms) \<and> (\<forall>m \<in> set ms. \<exists>k. msg_id m = Some k \<and> k < n)"

text \<open>The content-level message of \<open>AgentState\<close>.\<close>

definition to_message :: "base_message \<Rightarrow> message" where
  "to_message m = HumanMessage (msg_content m)"

text \<open>The messages with fresh ids the assignment gives to plain strings.\<close>

fun fresh_messages :: "nat \<Rightarrow> string list \<Rightarrow> base_message list" where
  "fresh_messages n [] = []"
| "fresh_messages n (s # rs) = \<lparr>msg_id = Some n, msg_content = s\<rparr> # fresh_messages (Suc n) rs"

section \<open>Lemmas\<close>

lemma assign_ids_wf: "\<forall>m \<in> set ms. msg_id m \<noteq> None \<Longrightarrow> assign_ids n ms = (ms, n)"
  by (induction ms) (auto split: option.split)

lemma assign_ids_plain:
  "assign_ids n (map plain_message rs) = (fresh_messages n rs, n + length rs)"
  by (induction rs arbitrary: n) (simp_all add: plain_message_def)

lemma fresh_messages_ids: "map msg_id (fresh_messages n rs) = map Some [n..<n + length rs]"
  by (induction rs arbitrary: n) (simp_all add: upt_rec)

lemma fresh_messages_content: "map to_message (fresh_messages n rs) = map HumanMessage rs"
  by (induction rs arbitrary: n) (simp_all add: to_message_def)

lemma index_foldl_other:
  "x \<notin> msg_id ` set ms \<Longrightarrow> foldl (\<lambda>d (i, m). d(msg_id m \<mapsto> i)) d0 (enumerate k ms) x = d0 x"
  by (induction ms arbitrary: d0 k) auto

lemma index_foldl_dom:
  "dom (foldl (\<lambda>d (i, m). d(msg_id m \<mapsto> i)) d0 (enumerate k ms)) = dom d0 \<union> msg_id ` set ms"
  by (induction ms arbitrary: d0 k) auto

lemma merge_messages_append:
  "(\<forall>m \<in> set rs. by_id (msg_id m) = None) \<Longrightarrow> distinct (map msg_id rs) \<Longrightarrow>
   merge_messages merged by_id rs = merged @ rs"
proof (induction rs arbitrary: merged by_id)
  case (Cons m rs)
  have "msg_id m' \<noteq> msg_id m" if "m' \<in> set rs" for m'
    using Cons.prems(2) that by (metis distinct.simps(2) list.set_map list.simps(9) imageI)
  then have "\<forall>m' \<in> set rs. (by_id(msg_id m \<mapsto> length merged)) (msg_id m') = None"
    using Cons.prems(1) by auto
  with Cons show ?case by simp
qed simp

lemma fresh_messages_set:
  "m \<in> set (fresh_messages n rs) \<Longrightarrow> \<exists>k. msg_id m = Some k \<and> n \<le> k \<and> k < n + length rs"
  by (induction rs arbitrary: n) fastforce+

lemma ids_wf_Some: "ids_wf n ms \<Longrightarrow> m \<in> set ms \<Longrightarrow> \<exists>k. msg_id m = Some k \<and> k < n"
  by (simp add: ids_wf_def)

text \<open>Refinement of the message reducer: merging the strings a node returns into a
  channel whose ids are distinct and below the fresh-id counter appends them as
  messages, exactly as the content-level add_messages of AgentState does, and leaves the
  channel with distinct ids below the advanced counter, so the next merge is an append
  again.\<close>

theorem add_messages_ids_refines:
  assumes "ids_wf n left" and "add_messages_ids n left (map plain_message rs) = (ms, n')"
  shows "map to_message ms = add_messages (map to_message left) rs \<and> ids_wf n' ms \<and> n' = n + length rs"
proof -
  have a1: "assign_ids n left = (left, n)"
    using assms(1) by (intro assign_ids_wf) (auto simp: ids_wf_def)
  have fresh: "\<forall>m \<in> set (fresh_messages n rs). index_by_id left (msg_id m) = None"
  proof
    fix m assume m: "m \<in> set (fresh_messages n rs)"
    from fresh_messages_set [OF m] obtain k where k: "msg_id m = Some k" "n \<le> k" by blast
    have "msg_id m \<notin> msg_id ` set left"
    proof
      assume "msg_id m \<in> msg_id ` set left"
      then obtain m' where "m' \<in> set left" "msg_id m' = msg_id m" by auto
      with ids_wf_Some [OF assms(1)] k show False by fastforce
    qed
    then show "index_by_id left (msg_id m) = None"
      using index_foldl_dom [of Map.empty 0 left] by (auto simp: index_by_id_def)
  qed
  have d: "distinct (map msg_id (fresh_messages n rs))"
    by (simp add: fresh_messages_ids distinct_map)
  have ms: "ms = left @ fresh_messages n rs" and n': "n' = n + length rs"
    using assms(2) a1 merge_messages_append [OF fresh d]
    by (simp_all add: add_messages_ids_def assign_ids_plain)
  have disj: "set (map msg_id left) \<inter> set (map msg_id (fresh_messages n rs)) = {}"
    using ids_wf_Some [OF assms(1)] fresh_messages_set [of _ n rs] by fastforce
  have "ids_wf n' ms"
    unfolding ids_wf_def ms n'
  proof
    show "distinct (map msg_id (left @ fresh_messages n rs))"
      using assms(1) d disj by (simp add: ids_wf_def)
    show "\<forall>m \<in> set (left @ fresh_messages n rs). \<exists>k. msg_id m = Some k \<and> k < n + length rs"
      using ids_wf_Some [OF assms(1)] fresh_messages_set [of _ n rs] by fastforce
  qed
  then show ?thesis by (simp add: ms n' fresh_messages_content add_messages_def)
qed

end
