(* ===== verification/Spec2Isabelle.thy ===== *)
theory Spec2Isabelle
  imports Controller App MessageReducer
begin

text \<open>
  \<^bold>\<open>A verified model of the resume-parsing pipeline\<close>

  \<^bold>\<open>The program.\<close> \<open>src/main.py\<close> is a Streamlit page: an uploaded PDF or DOCX file
  of at most 5 MB is saved under \<open>uploaded/\<close>, its text is extracted by
  \<open>parse_document\<close> (\<open>src/loaders.py\<close>), and a LangGraph workflow
  (\<open>create_workflow\<close>, \<open>src/workflow.py\<close>) runs three language-model agents on it:
  \<open>reader_call\<close> normalises the text, \<open>extractor_call\<close> produces a structured
  extraction and \<open>validator_call\<close> checks it (\<open>src/*_agent.py\<close>). The agents share one
  state, \<open>AgentState\<close> = {messages, sender, count}; each appends one message, names
  itself as sender, and the extractor increments the retry counter. After each agent the
  conditional-edge function \<open>router\<close> ends the run when the counter reaches 3 or the
  last message is exactly "Yes", and otherwise moves reader \<open>\<rightarrow>\<close> extractor
  \<open>\<rightarrow>\<close> validator \<open>\<rightarrow>\<close> extractor. The page shows every agent's output as the run
  streams it, and any exception as "An error occurred: ...". Streamlit reruns the whole
  script on every interaction; only the file system persists between runs.

  \<^bold>\<open>Theories, in import order.\<close>
  \<^item> \<open>Prelude\<close>: the Python exceptions of the program (\<open>exc\<close>, with \<open>str(e)\<close> as
    \<open>exc_str\<close>, including \<open>OSError\<close> with its errno and \<open>repr\<close> of the file name as
    \<open>py_repr\<close>), \<open>str.lower\<close> and \<open>str.capitalize\<close> on Latin-1, \<open>str.endswith\<close> and
    \<open>str.rfind\<close>, the collections \<open>node_defs\<close> and \<open>run_simps\<close>, generic lemmas.
  \<^item> \<open>AgentState\<close>: \<open>AgentState\<close> as a record, the update a node returns
    (\<open>node_update\<close>), the \<open>add_messages\<close> reducer on message contents and
    \<open>apply_update\<close>, LangGraph's merge of an update into the state, and
    \<open>initial_state\<close> of \<open>main.py\<close>.
  \<^item> \<open>MessageReducer\<close>: LangGraph's \<open>add_messages\<close> with message ids
    (\<open>add_messages_ids\<close>: fresh-id assignment, replacement by id, append). Its
    lemma \<open>add_messages_ids_refines\<close> justifies the append of \<open>AgentState\<close>: on the
    updates the nodes produce (plain strings, so fresh ids) the reducer appends.
  \<^item> \<open>Agents\<close>: \<open>reader_call\<close>, \<open>extractor_call\<close>, \<open>validator_call\<close> and the node
    table \<open>call_node\<close>, over an oracle \<open>llm\<close> for the language model (node and
    history in, completion or exception out; the prompt text is fixed per node). The
    \<open>AgentState\<close> TypedDict each agent module redeclares is the same record, named
    per module (\<open>reader_AgentState\<close>, ...) in the node's parameter type.
  \<^item> \<open>Router\<close>: \<open>router\<close>, with Python's short-circuit order and the IndexError of
    \<open>messages[-1]\<close> on an empty history.
  \<^item> \<open>Workflow\<close>: the compiled graph (\<open>path_map\<close>, \<open>branch\<close> with its KeyError) and
    its execution \<open>run_graph\<close>, one node per super-step, yielding each update;
    \<open>stream\<close> starts it at the reader as the \<open>START\<close> edge does.
  \<^item> \<open>Controller\<close>: the specification's abstract controller (section 4.2) as an
    inductive step relation \<open>ctl_step\<close> whose stages may receive any answer, its
    reachable states \<open>ctl_reach\<close>, labelled paths \<open>ctl_path\<close>, the invariant
    \<open>ctl_inv\<close> and the typing \<open>wt_state\<close> of the data model (section 3). It is the
    refinement target of the graph; its properties are used only through the runs of the
    program.
  \<^item> \<open>Checkpointer\<close>: the \<open>MemorySaver\<close> of \<open>create_workflow\<close> as a \<open>Mapping\<close>
    from thread ids to checkpointed states, the start state of a run on a thread
    (\<open>input_state\<close>) and the checkpointed stream \<open>stream_checkpointed\<close> that
    \<open>main\<close> runs on thread \<open>abc\<close>.
  \<^item> \<open>FileSystem\<close>: the operating system under the front end: a POSIX tree of
    directories and files (\<open>os_state\<close>), kernel path resolution (\<open>resolve\<close>,
    \<open>walk\<close>), \<open>os.path.exists\<close>, \<open>os.mkdir\<close>, CPython's \<open>os.makedirs\<close> (a
    \<open>function\<close> with its termination proof) and \<open>open(path, "wb").write\<close>.
  \<^item> \<open>Loaders\<close>: \<open>parse_document\<close>, with \<open>os.path.splitext\<close> modelled as CPython's
    \<open>posixpath\<close> code (\<open>rfind\<close> and the leading-dot loop \<open>splitext_loop\<close>); the
    PDF and DOCX libraries are an oracle \<open>doc_loader\<close> whose \<open>loader_outcome\<close>
    separates a constructor exception (raised before the \<open>try\<close>, so unwrapped) from a
    failure of \<open>load()\<close> (wrapped) and the pages.
  \<^item> \<open>App\<close>: \<open>main.py\<close>: \<open>setup_page\<close>, \<open>ensure_upload_folder\<close>, the uploader's type
    filter (\<open>file_uploader\<close>), \<open>validate_file_size\<close>, \<open>save_uploaded_file\<close> (with
    \<open>os.path.join\<close> as \<open>path_join\<close>), \<open>get_contents\<close>, the display loop
    (\<open>agent_output\<close>, \<open>show_outputs\<close>, and the interleaved \<open>stream_loop\<close>), the body
    \<open>process_upload\<close> and \<open>main\<close>, which returns the page as a list of Streamlit
    elements and the new operating-system state; \<open>session\<close> reruns it.
  \<^item> this theory: the property that spans the front end and the workflow.

  \<^bold>\<open>What is proved.\<close>
  \<^item> The run always ends (\<open>Workflow.stream_terminates\<close>), with at most six stage
    executions in the fixed order reader, extractor, validator, extractor, validator,
    extractor (\<open>Workflow.stream_schedule_bounded\<close>); the graph never raises KeyError
    (\<open>Workflow.path_map_covers_router\<close>) and a returned state satisfies the stop
    condition and is the fold of the yielded updates (\<open>Workflow.stream_final_state\<close>);
    every intermediate state is well typed and every update has the schema of
    \<open>AgentState\<close> (\<open>Controller.stream_states_well_typed\<close>), and at every point the
    counter equals the number of extractions streamed so far
    (\<open>Controller.stream_count_extractions\<close>).
  \<^item> Refinement: every run of the graph is a path of the specification's controller
    (\<open>Controller.stream_refines_controller\<close>), and every controller path ending in
    Terminated is produced by some language model
    (\<open>Controller.controller_path_realised\<close>); the data-model invariants of the
    specification, proved by rule induction on the controller's reachable states, hold
    in every state the program returns (\<open>Controller.stream_final_invariant\<close>).
  \<^item> Per component: the router's priorities and its only exception (\<open>Router\<close>), the
    update each node writes and its failure behaviour (\<open>Agents\<close>), the dispatch and
    errors of \<open>parse_document\<close> (\<open>Loaders\<close>), the size limit at its boundary, the
    upload folder, saving and reading back, the uploader filter against
    \<open>parse_document\<close>, what the page shows when a model call fails, the lazy display
    loop, and the file-system invariant across any number of reruns (\<open>App\<close>).
  \<^item> Findings, each proved: a run makes at most 6 stage calls, not the 7 the
    specification allows, because the counter is checked right after the third
    extraction, which is therefore never validated
    (\<open>Workflow.stream_never_yes_runs_out\<close>); a reader output of exactly "Yes" ends the
    run before any extraction (\<open>Workflow.stream_reader_yes_stops\<close>); the router's
    "reader" branch is dead; the outputs of an aborted run stay on the page, after a
    success message (\<open>App.main_partial_output_on_failure\<close>); an absolute upload name
    escapes the upload folder (\<open>App.save_uploaded_file_roundtrip\<close>); a regular file
    named \<open>uploaded\<close> passes the existence check and makes every save fail
    (\<open>App.main_upload_folder_is_file\<close>); a name such as \<open>.pdf\<close> passes the
    uploader but has no extension for \<open>splitext\<close> (\<open>App.accepted_upload_parse\<close>);
    an exception of a loader's constructor escapes without the "Error loading document"
    prefix, because the constructor runs before the \<open>try\<close>
    (\<open>Loaders.parse_document_dispatch\<close>).

  \<^bold>\<open>Fuel and bounds.\<close> \<open>run_graph\<close> and \<open>stream_loop\<close> take LangGraph's
  \<open>recursion_limit\<close> (25, the default the program does not change) as fuel; exhausting
  it is the library's GraphRecursionError, not a modelling device. \<open>budget\<close> bounds the
  super-steps a run needs from a node and a counter (6 from the reader with counter 0);
  with at least that much fuel the result does not depend on the fuel
  (\<open>run_graph_fuel_indep\<close>), so the limit never changes the behaviour
  (\<open>Workflow.stream_fuel_irrelevant\<close>). \<open>os.makedirs\<close> recurses on a strictly
  shorter path and needs no fuel. Python integers are \<open>int\<close>; the counter starts at 0
  in the program, and the budget also covers any other start value. \<open>uuid4\<close> is a
  counter above every id in use, which is the uniqueness the reducer relies on.

  \<^bold>\<open>Not modelled.\<close> The language model (only its contract: a completion or an
  exception, for any history; the agents actually format the history into the prompt
  as the \<open>repr\<close> of the message list, which such an oracle covers), the PDF and DOCX
  libraries (only theirs: pages or an exception), the prompt wording, Streamlit's page
  layout and transient spinner, file permissions, links and disk errors, the unused
  module-level \<open>ChatOpenAI\<close> client of \<open>main.py\<close>, and the imports. Strings are
  lists of 8-bit characters read as Latin-1 code points. Lower-casing is exact on them;
  upper-casing, which the program applies only to the node names in
  \<open>sender.capitalize()\<close>, leaves the three Latin-1 letters whose upper case lies
  outside Latin-1 (\<open>U+00B5\<close>, \<open>U+00DF\<close>, \<open>U+00FF\<close>) unchanged. Every line of
  \<open>src/\<close> other than the imports and that client is modelled; what remains outside is
  third-party code (LangChain's prompt templates and chat client, the PDF and DOCX
  libraries, Streamlit's rendering), represented by the oracles and the page-element
  list above.
\<close>

section \<open>Properties across the front end and the workflow\<close>

lemma expander_titles:
  "expander Reader m = StExpander ''Reader Agent Output'' m"
  "expander Extractor m = StExpander ''Extractor Agent Output'' m"
  "expander Validator m = StExpander ''Validator Agent Output'' m"
  by (simp_all add: expander_def py_str_eval)

text \<open>C12: Whatever the language model does, pressing the button on an accepted upload
  whose text can be extracted shows the upload's success message, then one expander per
  finished agent with the titles Reader, Extractor, Validator, Extractor, Validator,
  Extractor Agent Output in that order (at most six), then either the completion message
  or the text of an exception raised by the language model.\<close>

theorem main_page_shape:
  assumes "uploaded_file.size file \<le> MAX_FILE_SIZE"
    and "file_uploader [''pdf'', ''docx''] (Some file) = Some file"
    and "save_uploaded_file (snd (ensure_upload_folder os)) file = Inr (path, os')"
    and "get_contents load os' path = Inr file_content"
  shows "\<exists>nodes msgs tail.
     fst (main os (Some file) True load llm) =
       setup_page @ StFileUploader ''Choose a resume file'' [''pdf'', ''docx''] #
       StButton ''Start Processing'' #
       StSuccess ''Successfully processed uploaded resume.'' # map2 expander nodes msgs @ [tail] \<and>
     nodes = take (length nodes) [Reader, Extractor, Validator, Extractor, Validator, Extractor] \<and>
     (tail = StSuccess ''Resume processing complete!'' \<or>
      (\<exists>e. tail = StError (''An error occurred: '' @ exc_str e) \<and> (\<exists>m ms. llm m ms = Inl e)))"
proof -
  let ?evs = "fst (stream llm (initial_state file_content))"
  let ?res = "snd (stream llm (initial_state file_content))"
  let ?tail = "case ?res of Inl e \<Rightarrow> error_event e | Inr _ \<Rightarrow> StSuccess ''Resume processing complete!''"
  have page: "fst (main os (Some file) True load llm) =
      setup_page @ StFileUploader ''Choose a resume file'' [''pdf'', ''docx''] #
       StButton ''Start Processing'' # StSuccess ''Successfully processed uploaded resume.'' #
        map2 expander (map fst ?evs) (map (\<lambda>ev. hd (upd_messages (snd ev))) ?evs) @ [?tail]"
    using process_upload_clicked_eq [OF assms(1,3,4), of llm] assms(2)
    by (simp add: main_eq map2_map_same split_beta split: sum.split)
  have tail: "?tail = StSuccess ''Resume processing complete!'' \<or>
      (\<exists>e. ?tail = StError (''An error occurred: '' @ exc_str e) \<and> (\<exists>m ms. llm m ms = Inl e))"
  proof (cases ?res)
    case (Inl e)
    have b: "budget Reader (count (initial_state file_content)) \<le> recursion_limit"
      by (simp add: recursion_limit_def budget_def)
    from Inl have "snd (run_graph recursion_limit llm Reader (initial_state file_content)) = Inl e"
      by (simp add: stream_def)
    from run_graph_error_from_llm [OF this b] Inl show ?thesis by (auto simp: error_event_def)
  qed simp
  show ?thesis
    using page tail stream_length_le_6 [of llm file_content] sched_Reader_take
      run_graph_sched [of recursion_limit llm Reader "initial_state file_content"]
    by (intro exI [of _ "map fst ?evs"] exI [of _ "map (\<lambda>ev. hd (upd_messages (snd ev))) ?evs"]
        exI [of _ ?tail]) (simp add: stream_def)
qed

section \<open>Witnesses\<close>

theorem main_page_shape_witness:
  "\<exists>nodes msgs tail.
     fst (main \<lparr>files = Map.empty([] \<mapsto> Dir, [''app''] \<mapsto> Dir), cwd = [''app'']\<rparr>
        (Some \<lparr>name = ''cv.docx'', size = 2, buffer = [0x50, 0x4B]\<rparr>) True
        (\<lambda>k os p. Loaded [\<lparr>page_content = ''Jane Doe''\<rparr>])
        (\<lambda>n ms. Inr ''Yes'')) =
       setup_page @ StFileUploader ''Choose a resume file'' [''pdf'', ''docx''] #
       StButton ''Start Processing'' #
       StSuccess ''Successfully processed uploaded resume.'' # map2 expander nodes msgs @ [tail] \<and>
     nodes = take (length nodes) [Reader, Extractor, Validator, Extractor, Validator, Extractor] \<and>
     (tail = StSuccess ''Resume processing complete!'' \<or>
      (\<exists>e. tail = StError (''An error occurred: '' @ exc_str e) \<and>
        (\<exists>m ms. Inr ''Yes'' = (Inl e :: exc + string))))"
proof -
  have h1: "uploaded_file.size \<lparr>name = ''cv.docx'', size = 2, buffer = [0x50, 0x4B]\<rparr> \<le> MAX_FILE_SIZE"
    by (simp add: MAX_FILE_SIZE_def)
  have h2: "file_uploader [''pdf'', ''docx''] (Some \<lparr>name = ''cv.docx'', size = 2, buffer = [0x50, 0x4B]\<rparr>) =
      Some \<lparr>name = ''cv.docx'', size = 2, buffer = [0x50, 0x4B]\<rparr>"
    by (simp add: file_uploader_def uploader_type_def py_endswith_def py_str_eval)
  have h3: "save_uploaded_file (snd (ensure_upload_folder \<lparr>files = Map.empty([] \<mapsto> Dir, [''app''] \<mapsto> Dir), cwd = [''app'']\<rparr>))
      \<lparr>name = ''cv.docx'', size = 2, buffer = [0x50, 0x4B]\<rparr> =
    Inr (''uploaded/cv.docx'',
      \<lparr>files = Map.empty([] \<mapsto> Dir, [''app''] \<mapsto> Dir, [''app'', ''uploaded''] \<mapsto> Dir,
         [''app'', ''uploaded'', ''cv.docx''] \<mapsto> File [0x50, 0x4B]), cwd = [''app'']\<rparr>)"
    by (simp add: ensure_upload_folder_eq save_uploaded_file_plain)
  have h4: "get_contents (\<lambda>k os p. Loaded [\<lparr>page_content = ''Jane Doe''\<rparr>])
      \<lparr>files = Map.empty([] \<mapsto> Dir, [''app''] \<mapsto> Dir, [''app'', ''uploaded''] \<mapsto> Dir,
         [''app'', ''uploaded'', ''cv.docx''] \<mapsto> File [0x50, 0x4B]), cwd = [''app'']\<rparr>
      ''uploaded/cv.docx'' = Inr ''Jane Doe''"
    by (simp add: get_contents_def parse_document_def splitext_def splitext_loop.simps py_str_eval)
  from main_page_shape [OF h1 h2 h3 h4, of "\<lambda>n ms. Inr ''Yes''"] show ?thesis by simp
qed

end
